theory Spec2Isabelle
  imports Complex_Main
begin

section \<open>Values\<close>

text \<open>
  A cell of a pandas Series or a Python attribute value: \<open>None\<close>, the float
  not-a-number, the two float infinities, a finite number (a float or a
  \<open>decimal.Decimal\<close>, idealised as a real number) and a calendar date (its
  proleptic day number).  A point in time is a number of seconds, read in UTC, so that
  the calendar date of a time is its quotient by 86400.
\<close>

datatype pyval = PyNone | NaN | PosInf | NegInf | Num real | PyDate int

type_synonym series = "(int \<times> pyval) list"

type_synonym obj = "string \<rightharpoonup> pyval"

datatype error =
    TypeError string
  | ValueError
  | OperationalError
  | MultipleResultsFound
  | FetchError
  | DecimalDivisionByZero
  | DecimalInvalidOperation
  | HTTPException

datatype log_entry = LogInfo string | LogWarning string | LogError string error

definition date_of :: "int \<Rightarrow> int" where
  "date_of t = t div 86400"

text \<open>\<open>datetime.combine(d, datetime.min.time())\<close>: midnight of day \<open>d\<close>.\<close>

definition combine_min :: "int \<Rightarrow> int" where
  "combine_min d = d * 86400"

text \<open>
  The \<open>equity\<close> and \<open>close\<close> columns are \<open>Numeric\<close>, so the rows hold
  \<open>decimal.Decimal\<close> values.  Their division raises on a zero divisor:
  \<open>InvalidOperation\<close> for \<open>0 / 0\<close> and \<open>DivisionByZero\<close> otherwise.
\<close>

definition decimal_div :: "real \<Rightarrow> real \<Rightarrow> error + real" where
  "decimal_div a b =
     (if b = 0 then Inl (if a = 0 then DecimalInvalidOperation else DecimalDivisionByZero)
      else Inr (a / b))"

text \<open>\<open>pd.isna\<close>: true of \<open>None\<close> and of NaN, false of an infinity.\<close>

fun isna :: "pyval \<Rightarrow> bool" where
  "isna PyNone = True"
| "isna NaN = True"
| "isna v = False"

text \<open>\<open>float(v) if v is not None and not pd.isna(v) else None\<close>\<close>

definition float_or_none :: "pyval \<Rightarrow> pyval" where
  "float_or_none v = (if v \<noteq> PyNone \<and> \<not> isna v then v else PyNone)"

text \<open>\<open>s.iloc[idx] if idx < len(s) else None\<close>\<close>

definition iloc_or_none :: "series \<Rightarrow> nat \<Rightarrow> pyval" where
  "iloc_or_none s idx = (if idx < length s then snd (s ! idx) else PyNone)"

section \<open>The AnalyticsDaily model class\<close>

text \<open>
  The columns declared on \<open>AnalyticsDaily\<close> in \<open>analytics.py\<close>, in the order of
  the class body, and after them the other attributes the class has: those of its body
  and the two public ones it inherits from \<open>DeclarativeBase\<close>.  (What it inherits
  from \<open>object\<close> and the private names of the declarative machinery all begin with
  an underscore and are left out.)  An instance is its attribute dictionary; only the
  attributes that are columns are written to the table.
\<close>

definition AnalyticsDaily_columns :: "string list" where
  "AnalyticsDaily_columns =
     [''id'', ''date'', ''return_pct'', ''cum_return'', ''drawdown'',
      ''volatility_20d'', ''sharpe_60d'', ''beta_spy_60d'', ''alpha_spy_60d'']"

definition AnalyticsDaily_attributes :: "string list" where
  "AnalyticsDaily_attributes =
     AnalyticsDaily_columns @
     [''__tablename__'', ''__table_args__'', ''__repr__'', ''metadata'', ''registry'']"

text \<open>
  The constructor every declarative class inherits: each keyword must name an attribute
  of the class (\<open>hasattr\<close>), otherwise \<open>TypeError\<close> is raised at the first keyword
  that does not.
\<close>

fun declarative_constructor :: "string list \<Rightarrow> (string \<times> pyval) list \<Rightarrow> obj \<Rightarrow> error + obj" where
  "declarative_constructor attrs [] self = Inr self"
| "declarative_constructor attrs ((k, v) # kwargs) self =
     (if k \<in> set attrs then declarative_constructor attrs kwargs (self(k \<mapsto> v))
      else Inl (TypeError k))"

definition AnalyticsDaily :: "(string \<times> pyval) list \<Rightarrow> error + obj" where
  "AnalyticsDaily kwargs = declarative_constructor AnalyticsDaily_attributes kwargs Map.empty"

text \<open>Attribute assignment on an instance; Python accepts any attribute name.\<close>

definition setattrs :: "obj \<Rightarrow> (string \<times> pyval) list \<Rightarrow> obj" where
  "setattrs ob kvs = foldl (\<lambda>acc kv. acc(fst kv \<mapsto> snd kv)) ob kvs"

text \<open>What a flush writes of an instance: its mapped columns.\<close>

definition persist :: "obj \<Rightarrow> obj" where
  "persist ob = ob |` set AnalyticsDaily_columns"

section \<open>The data store and the session\<close>

record store =
  equity_curve :: "(int \<times> real) list"
  instruments :: "(string \<times> nat) list"
  ohlc_daily :: "(nat \<times> int \<times> real) list"
  analytics_daily :: "obj list"

text \<open>
  A session holds the committed store, the \<open>AnalyticsDaily\<close> instances as its open
  transaction sees them, the number of round trips to the store that will still succeed
  (\<open>None\<close>: the connection never fails), a count of the commits it has made, and the log.
\<close>

record session =
  stored :: store
  objects :: "obj list"
  budget :: "nat option"
  commits :: nat
  logged :: "log_entry list"

definition SessionLocal :: "store \<Rightarrow> nat option \<Rightarrow> log_entry list \<Rightarrow> session" where
  "SessionLocal st b lg =
     \<lparr>stored = st, objects = analytics_daily st, budget = b, commits = 0, logged = lg\<rparr>"

definition logger :: "log_entry \<Rightarrow> session \<Rightarrow> session" where
  "logger entry db = db\<lparr>logged := logged db @ [entry]\<rparr>"

text \<open>One round trip to the data store.\<close>

definition roundtrip :: "session \<Rightarrow> (error + unit) \<times> session" where
  "roundtrip db =
     (case budget db of
        None \<Rightarrow> (Inr (), db)
      | Some n \<Rightarrow>
          (case n of
             0 \<Rightarrow> (Inl OperationalError, db)
           | Suc m \<Rightarrow> (Inr (), db\<lparr>budget := Some m\<rparr>)))"

definition commit :: "session \<Rightarrow> (error + unit) \<times> session" where
  "commit db =
     (case roundtrip db of
        (Inl e, db1) \<Rightarrow> (Inl e, db1)
      | (Inr u, db1) \<Rightarrow>
          (Inr (),
           db1\<lparr>stored := (stored db1)\<lparr>analytics_daily := map persist (objects db1)\<rparr>,
                commits := Suc (commits db1)\<rparr>))"

definition rollback :: "session \<Rightarrow> session" where
  "rollback db = db\<lparr>objects := analytics_daily (stored db)\<rparr>"

text \<open>\<open>scalar_one_or_none\<close> over the rows a query matched.\<close>

fun scalar_one_or_none :: "'a list \<Rightarrow> error + 'a option" where
  "scalar_one_or_none [] = Inr None"
| "scalar_one_or_none [x] = Inr (Some x)"
| "scalar_one_or_none (x # y # zs) = Inl MultipleResultsFound"

text \<open>
  \<open>select(EquityCurve.time, EquityCurve.equity).where(time >= t0).order_by(time.asc())\<close>
\<close>

definition select_equity :: "int \<Rightarrow> session \<Rightarrow> (error + (int \<times> real) list) \<times> session" where
  "select_equity t0 db =
     (case roundtrip db of
        (Inl e, db1) \<Rightarrow> (Inl e, db1)
      | (Inr u, db1) \<Rightarrow>
          (Inr (sort_key fst (filter (\<lambda>row. t0 \<le> fst row) (equity_curve (stored db1)))), db1))"

text \<open>\<open>select(Instrument).where(Instrument.symbol == symbol)\<close>, one or none.\<close>

definition select_instrument :: "string \<Rightarrow> session \<Rightarrow> (error + nat option) \<times> session" where
  "select_instrument symbol db =
     (case roundtrip db of
        (Inl e, db1) \<Rightarrow> (Inl e, db1)
      | (Inr u, db1) \<Rightarrow>
          (scalar_one_or_none
             (map snd (filter (\<lambda>row. fst row = symbol) (instruments (stored db1)))), db1))"

text \<open>
  \<open>select(OHLCDaily.date, OHLCDaily.close)\<close> of one instrument from a date on, by date.
\<close>

definition select_ohlc :: "nat \<Rightarrow> int \<Rightarrow> session \<Rightarrow> (error + (int \<times> real) list) \<times> session" where
  "select_ohlc instrument_id d0 db =
     (case roundtrip db of
        (Inl e, db1) \<Rightarrow> (Inl e, db1)
      | (Inr u, db1) \<Rightarrow>
          (Inr (sort_key fst
                  (map snd
                     (filter (\<lambda>row. fst row = instrument_id \<and> d0 \<le> fst (snd row))
                        (ohlc_daily (stored db1))))), db1))"

text \<open>
  \<open>select(AnalyticsDaily).where(AnalyticsDaily.date == d)\<close>, one or none: the position
  of the instance among the session's instances.
\<close>

definition select_analytics :: "int \<Rightarrow> session \<Rightarrow> (error + nat option) \<times> session" where
  "select_analytics d db =
     (case roundtrip db of
        (Inl e, db1) \<Rightarrow> (Inl e, db1)
      | (Inr u, db1) \<Rightarrow>
          (scalar_one_or_none
             (filter (\<lambda>i. (objects db1 ! i) ''date'' = Some (PyDate d))
                [0 ..< length (objects db1)]), db1))"

section \<open>The analytics functions the orchestrator imports\<close>

text \<open>
  \<open>tasks.py\<close> imports five functions from \<open>core.analytics\<close>; the orchestrator is
  modelled over any five such functions.
\<close>

record analytics_lib =
  compute_daily_returns :: "series \<Rightarrow> series"
  compute_max_drawdown :: "series \<Rightarrow> pyval"
  compute_rolling_volatility :: "series \<Rightarrow> nat \<Rightarrow> series"
  compute_rolling_sharpe :: "series \<Rightarrow> nat \<Rightarrow> series"
  compute_beta_alpha :: "series \<Rightarrow> series \<Rightarrow> nat \<Rightarrow> series \<times> series"

section \<open>The recomputation pass\<close>

text \<open>
  \<open>equity_series.resample('D').last().dropna()\<close> on rows ordered by time: one entry
  per calendar day that has a snapshot, holding the day's last snapshot.
\<close>

fun resample_last :: "(int \<times> real) list \<Rightarrow> (int \<times> real) list" where
  "resample_last [] = []"
| "resample_last [row] = [(date_of (fst row), snd row)]"
| "resample_last (row1 # row2 # rest) =
     (if date_of (fst row1) = date_of (fst row2) then resample_last (row2 # rest)
      else (date_of (fst row1), snd row1) # resample_last (row2 # rest))"

definition to_series :: "(int \<times> real) list \<Rightarrow> series" where
  "to_series rows = map (\<lambda>row. (fst row, Num (snd row))) rows"

text \<open>
  \<open>close_series.pct_change().fillna(0)\<close>: each close divided by the one before it,
  less 1; the first date has no close before it and gets the missing value, which
  \<open>fillna(0)\<close> replaces by 0.  The closes are decimals, so a close of 0 that has a
  successor makes the division raise.
\<close>

definition fillna0 :: "pyval \<Rightarrow> pyval" where
  "fillna0 v = (if isna v then Num 0 else v)"

fun pct_change :: "(int \<times> real) list \<Rightarrow> error + series" where
  "pct_change [] = Inr []"
| "pct_change [row] = Inr []"
| "pct_change (row1 # row2 # rest) =
     (case decimal_div (snd row2) (snd row1) of
        Inl e \<Rightarrow> Inl e
      | Inr q \<Rightarrow>
          (case pct_change (row2 # rest) of
             Inl e \<Rightarrow> Inl e
           | Inr changes \<Rightarrow> Inr ((fst row2, Num (q - 1)) # changes)))"

definition close_returns :: "(int \<times> real) list \<Rightarrow> error + series" where
  "close_returns rows =
     (case rows of
        [] \<Rightarrow> Inr []
      | row # rest \<Rightarrow>
          (case pct_change rows of
             Inl e \<Rightarrow> Inl e
           | Inr changes \<Rightarrow>
               Inr (map (\<lambda>c. (fst c, fillna0 (snd c))) ((fst row, NaN) # changes))))"

definition get_benchmark_returns ::
  "string \<Rightarrow> int \<Rightarrow> session \<Rightarrow> (error + series option) \<times> session" where
  "get_benchmark_returns symbol start db =
     (case select_instrument symbol db of
        (Inl e, db1) \<Rightarrow> (Inl e, db1)
      | (Inr None, db1) \<Rightarrow> (Inr None, db1)
      | (Inr (Some instrument_id), db1) \<Rightarrow>
          (case select_ohlc instrument_id start db1 of
             (Inl e, db2) \<Rightarrow> (Inl e, db2)
           | (Inr ohlc_data, db2) \<Rightarrow>
               (if ohlc_data = [] then (Inr None, db2)
                else
                  (case close_returns ohlc_data of
                     Inl e \<Rightarrow> (Inl e, db2)
                   | Inr returns \<Rightarrow> (Inr (Some returns), db2)))))"

text \<open>
  \<open>pd.DataFrame({'portfolio': p, 'benchmark': b}).dropna()\<close>: the dates both series
  have with a value that is not missing.
\<close>

definition aligned :: "series \<Rightarrow> series \<Rightarrow> (int \<times> pyval \<times> pyval) list" where
  "aligned p b =
     concat (map (\<lambda>c.
        (case map_of b (fst c) of
           None \<Rightarrow> []
         | Some y \<Rightarrow> (if isna (snd c) \<or> isna y then [] else [(fst c, snd c, y)]))) p)"

definition none_series :: "series \<Rightarrow> series" where
  "none_series s = map (\<lambda>c. (fst c, PyNone)) s"

definition beta_alpha :: "analytics_lib \<Rightarrow> series \<Rightarrow> series option \<Rightarrow> series \<times> series" where
  "beta_alpha L returns spy_data =
     (case spy_data of
        None \<Rightarrow> (none_series returns, none_series returns)
      | Some spy \<Rightarrow>
          (if 60 \<le> length spy then
             (let al = aligned returns spy in
              if 60 \<le> length al then
                compute_beta_alpha L
                  (map (\<lambda>r. (fst r, fst (snd r))) al)
                  (map (\<lambda>r. (fst r, snd (snd r))) al) 60
              else (none_series returns, none_series returns))
           else (none_series returns, none_series returns)))"

record pass_ctx =
  start_date :: int
  daily_equity :: "(int \<times> real) list"
  daily_returns :: series
  max_dd :: pyval
  rolling_vol :: series
  rolling_sharpe :: series
  beta :: series
  alpha :: series

text \<open>
  \<open>float((daily_equity.iloc[idx] / daily_equity.iloc[0]) - 1)\<close>: a division of
  decimals, which raises when the first daily equity is 0.
\<close>

definition cumulative_return :: "pass_ctx \<Rightarrow> nat \<Rightarrow> error + pyval" where
  "cumulative_return c idx =
     (case decimal_div (snd (daily_equity c ! idx)) (snd (daily_equity c ! 0)) of
        Inl e \<Rightarrow> Inl e
      | Inr q \<Rightarrow> Inr (Num (q - 1)))"

text \<open>
  The eight values both branches of the loop write for the day at position \<open>idx\<close>,
  under the names the orchestrator gives them and in its order: the two it evaluates
  before the cumulative return, the cumulative return \<open>cum\<close>, and the five after it.
\<close>

definition values_before :: "pass_ctx \<Rightarrow> nat \<Rightarrow> (string \<times> pyval) list" where
  "values_before c idx =
     [(''total_equity'', Num (snd (daily_equity c ! idx))),
      (''daily_return'', float_or_none (iloc_or_none (daily_returns c) idx))]"

definition values_after :: "pass_ctx \<Rightarrow> nat \<Rightarrow> (string \<times> pyval) list" where
  "values_after c idx =
     [(''max_drawdown'', max_dd c),
      (''volatility_20d'', float_or_none (iloc_or_none (rolling_vol c) idx)),
      (''sharpe_60d'', float_or_none (iloc_or_none (rolling_sharpe c) idx)),
      (''beta_spy_60d'', float_or_none (iloc_or_none (beta c) idx)),
      (''alpha_spy_60d'', float_or_none (iloc_or_none (alpha c) idx))]"

definition analytics_values :: "pass_ctx \<Rightarrow> nat \<Rightarrow> pyval \<Rightarrow> (string \<times> pyval) list" where
  "analytics_values c idx cum =
     values_before c idx @ (''cumulative_return'', cum) # values_after c idx"

text \<open>
  The loop \<open>for trade_date in daily_equity.index\<close>, over the positions still to visit.
  In the update branch the first two attributes are already assigned when the division
  raises; in the insert branch the keyword arguments are evaluated, in order, before the
  constructor is called.
\<close>

fun store_loop :: "pass_ctx \<Rightarrow> nat list \<Rightarrow> session \<Rightarrow> (error + unit) \<times> session" where
  "store_loop c [] db = (Inr (), db)"
| "store_loop c (idx # rest) db =
     (let date_only = fst (daily_equity c ! idx) in
      if date_only < start_date c then store_loop c rest db
      else
        (case select_analytics date_only db of
           (Inl e, db1) \<Rightarrow> (Inl e, db1)
         | (Inr (Some i), db1) \<Rightarrow>
             (case cumulative_return c idx of
                Inl e \<Rightarrow>
                  (Inl e,
                   db1\<lparr>objects :=
                     (objects db1)[i := setattrs (objects db1 ! i) (values_before c idx)]\<rparr>)
              | Inr cum \<Rightarrow>
                  store_loop c rest
                    (db1\<lparr>objects :=
                      (objects db1)[i := setattrs (objects db1 ! i) (analytics_values c idx cum)]\<rparr>))
         | (Inr None, db1) \<Rightarrow>
             (case cumulative_return c idx of
                Inl e \<Rightarrow> (Inl e, db1)
              | Inr cum \<Rightarrow>
                  (case AnalyticsDaily
                          ((''date'', PyDate date_only) # analytics_values c idx cum) of
                     Inl e \<Rightarrow> (Inl e, db1)
                   | Inr analytics \<Rightarrow>
                       store_loop c rest (db1\<lparr>objects := objects db1 @ [analytics]\<rparr>)))))"

definition make_ctx :: "analytics_lib \<Rightarrow> int \<Rightarrow> (int \<times> real) list \<Rightarrow> series option \<Rightarrow> pass_ctx" where
  "make_ctx L start daily spy_data =
     (let returns = compute_daily_returns L (to_series daily) in
      \<lparr>start_date = start,
       daily_equity = daily,
       daily_returns = returns,
       max_dd = compute_max_drawdown L (to_series daily),
       rolling_vol = compute_rolling_volatility L returns 20,
       rolling_sharpe = compute_rolling_sharpe L returns 60,
       beta = fst (beta_alpha L returns spy_data),
       alpha = snd (beta_alpha L returns spy_data)\<rparr>)"

text \<open>\<open>_recompute_analytics_from_date(db, start_date)\<close>\<close>

definition recompute_analytics_from_date ::
  "analytics_lib \<Rightarrow> int \<Rightarrow> session \<Rightarrow> (error + unit) \<times> session" where
  "recompute_analytics_from_date L start db =
     (case select_equity (combine_min start) db of
        (Inl e, db1) \<Rightarrow> (Inl e, db1)
      | (Inr equity_data, db1) \<Rightarrow>
          (if equity_data = [] then
             (Inr (), logger (LogWarning ''No equity data found for analytics computation'') db1)
           else
             (let daily = resample_last equity_data in
              if length daily < 2 then
                (Inr (), logger (LogWarning ''Insufficient data for analytics computation'') db1)
              else
                (case get_benchmark_returns ''SPY'' start db1 of
                   (Inl e, db2) \<Rightarrow> (Inl e, db2)
                 | (Inr spy_data, db2) \<Rightarrow>
                     (case store_loop (make_ctx L start daily spy_data) [0 ..< length daily] db2 of
                        (Inl e, db3) \<Rightarrow> (Inl e, db3)
                      | (Inr u, db3) \<Rightarrow>
                          (case commit db3 of
                             (Inl e, db4) \<Rightarrow> (Inl e, db4)
                           | (Inr u, db4) \<Rightarrow>
                               (Inr (), logger (LogInfo ''Analytics updated'') db4)))))))"

section \<open>The tasks\<close>

text \<open>
  How one execution of a task ends: it returns, it asks to be run again after a
  countdown (\<open>raise self.retry(...)\<close> while retries remain), or it raises.
\<close>

datatype outcome = Returned | Retry nat error | Raised error

text \<open>
  \<open>Task.retry(exc, countdown)\<close> for a request that has been retried \<open>retries\<close>
  times: past \<open>max_retries\<close> the exception itself is raised.
\<close>

definition task_retry :: "nat \<Rightarrow> nat \<Rightarrow> error \<Rightarrow> nat \<Rightarrow> outcome" where
  "task_retry max_retries retries exc countdown =
     (if max_retries < retries + 1 then Raised exc else Retry countdown exc)"

text \<open>\<open>event_time.replace('Z', '+00:00')\<close>\<close>

definition replace_Z :: "string \<Rightarrow> string" where
  "replace_Z s = concat (map (\<lambda>ch. if ch = CHR ''Z'' then ''+00:00'' else [ch]) s)"

text \<open>
  \<open>recompute_from_event\<close>, declared with \<open>max_retries=3\<close>.  The parser
  \<open>datetime.fromisoformat\<close> is a parameter: it yields the local time in seconds, or
  nothing where it raises \<open>ValueError\<close>.  Closing the session changes nothing here.
\<close>

definition recompute_from_event ::
  "analytics_lib \<Rightarrow> (string \<Rightarrow> int option) \<Rightarrow> string \<Rightarrow> string option \<Rightarrow> string \<Rightarrow>
   nat \<Rightarrow> session \<Rightarrow> outcome \<times> session" where
  "recompute_from_event L fromisoformat event_type instrument_id event_time retries db =
     (let db1 = logger (LogInfo ''Processing event'') db in
      (case (case fromisoformat (replace_Z event_time) of
               None \<Rightarrow> (Inl ValueError, db1)
             | Some event_dt \<Rightarrow> recompute_analytics_from_date L (date_of event_dt) db1) of
         (Inr u, db2) \<Rightarrow> (Returned, logger (LogInfo ''Successfully processed event'') db2)
       | (Inl e, db2) \<Rightarrow>
           (task_retry 3 retries e (2 ^ retries),
            rollback (logger (LogError ''Error processing event'' e) db2))))"

text \<open>
  \<open>select(EquityCurve.time).order_by(EquityCurve.time.asc()).limit(1)\<close>, one or none.
\<close>

definition select_earliest :: "session \<Rightarrow> (error + int option) \<times> session" where
  "select_earliest db =
     (case roundtrip db of
        (Inl e, db1) \<Rightarrow> (Inl e, db1)
      | (Inr u, db1) \<Rightarrow>
          (scalar_one_or_none (take 1 (sort_key id (map fst (equity_curve (stored db1))))), db1))"

definition recompute_all_analytics :: "analytics_lib \<Rightarrow> session \<Rightarrow> outcome \<times> session" where
  "recompute_all_analytics L db =
     (let db1 = logger (LogInfo ''Starting full analytics recomputation'') db in
      (case (case select_earliest db1 of
               (Inl e, db2) \<Rightarrow> (Inl e, db2)
             | (Inr None, db2) \<Rightarrow>
                 (Inr (), logger (LogInfo ''No equity data found, nothing to compute'') db2)
             | (Inr (Some earliest), db2) \<Rightarrow>
                 (case recompute_analytics_from_date L (date_of earliest) db2 of
                    (Inl e, db3) \<Rightarrow> (Inl e, db3)
                  | (Inr u, db3) \<Rightarrow>
                      (Inr (), logger (LogInfo ''Full analytics recomputation complete'') db3))) of
         (Inr u, db4) \<Rightarrow> (Returned, db4)
       | (Inl e, db4) \<Rightarrow>
           (Returned, rollback (logger (LogError ''Error in full recomputation'' e) db4))))"

text \<open>
  \<open>update_benchmarks_daily\<close>.  Its callee \<open>fetch_multiple_symbols\<close> is a parameter
  that may do anything to the session and may raise; \<open>benchmarks\<close> is the list of symbols
  read from the environment and \<open>today\<close> the current date.
\<close>

definition update_benchmarks_daily ::
  "(string list \<Rightarrow> int \<Rightarrow> int \<Rightarrow> session \<Rightarrow> (error + (string \<times> nat) list) \<times> session) \<Rightarrow>
   string list \<Rightarrow> int \<Rightarrow> session \<Rightarrow> outcome \<times> session" where
  "update_benchmarks_daily fetch_multiple_symbols benchmarks today db =
     (let db1 = logger (LogInfo ''Updating benchmarks'') db;
          yesterday = today - 1 in
      (case fetch_multiple_symbols benchmarks yesterday yesterday db1 of
         (Inr results, db2) \<Rightarrow> (Returned, logger (LogInfo ''Benchmark update results'') db2)
       | (Inl e, db2) \<Rightarrow>
           (Returned, rollback (logger (LogError ''Error updating benchmarks'' e) db2))))"

section \<open>The task runner\<close>

text \<open>
  What the worker does with one task message: it executes the task on a fresh session
  over the current store, and executes it again, after the countdown, for as long as the
  task asks for a retry.  \<open>env k\<close> is the connection budget of the session the
  execution with \<open>k\<close> earlier retries gets.
\<close>

record run =
  executions :: nat
  delays :: "nat list"
  final :: outcome
  final_store :: store
  final_log :: "log_entry list"

function celery_worker ::
  "(nat \<Rightarrow> session \<Rightarrow> outcome \<times> session) \<Rightarrow> nat \<Rightarrow> (nat \<Rightarrow> nat option) \<Rightarrow>
   nat \<Rightarrow> store \<Rightarrow> log_entry list \<Rightarrow> run" where
  "celery_worker task max_retries env retries st lg =
     (case task retries (SessionLocal st (env retries) lg) of
        (Retry countdown exc, db) \<Rightarrow>
          (if retries < max_retries then
             (let r = celery_worker task max_retries env (Suc retries) (stored db) (logged db)
              in r\<lparr>executions := Suc (executions r), delays := countdown # delays r\<rparr>)
           else \<lparr>executions = 1, delays = [], final = Raised exc,
                 final_store = stored db, final_log = logged db\<rparr>)
      | (Returned, db) \<Rightarrow>
          \<lparr>executions = 1, delays = [], final = Returned,
           final_store = stored db, final_log = logged db\<rparr>
      | (Raised exc, db) \<Rightarrow>
          \<lparr>executions = 1, delays = [], final = Raised exc,
           final_store = stored db, final_log = logged db @ [LogError ''Task raised'' exc]\<rparr>)"
  by pat_completeness auto
termination
  by (relation "measure (\<lambda>(task, max_retries, env, retries, st, lg). max_retries - retries)") auto

declare celery_worker.simps [simp del]




section \<open>The ingestion of events\<close>









section \<open>The return and risk functions, from their specification\<close>

text \<open>
  The module \<open>core/analytics.py\<close>, which defines the functions \<open>tasks.py\<close> imports and
  \<open>test_analytics.py\<close> tests, is not among the sources.  The functions of this section
  follow the words of the specification (section 4.1); each works on the values of a
  series in date order.  A missing value is NaN, as pandas has it.
\<close>

text \<open>
  Modelled from the spec: \<open>dailyReturns\<close> (the source's \<open>compute_daily_returns\<close>, whose
  module is missing).  Index 0 returns 0; index \<open>i > 0\<close> returns
  \<open>(v[i] - v[i-1]) / v[i-1]\<close>, and a missing value where \<open>v[i-1] = 0\<close>.
\<close>

fun returns_from :: "real \<Rightarrow> real list \<Rightarrow> pyval list" where
  "returns_from prev [] = []"
| "returns_from prev (v # vs) =
     (if prev = 0 then NaN else Num ((v - prev) / prev)) # returns_from v vs"

definition dailyReturns :: "real list \<Rightarrow> pyval list" where
  "dailyReturns vs = (case vs of [] \<Rightarrow> [] | v # rest \<Rightarrow> Num 0 # returns_from v rest)"

text \<open>
  Modelled from the spec: \<open>maxDrawdown\<close> (the source's \<open>compute_max_drawdown\<close>, whose
  module is missing).  One pass over the series keeps the running peak \<open>p\<close> and the
  lowest value of \<open>(v[i] - p) / p\<close> seen; a point whose peak is 0 has no such value and
  is passed over, the library never raising for a numeric edge case.  The result is 0
  when no point lies below its peak.
\<close>

fun drawdown_scan :: "real \<Rightarrow> real \<Rightarrow> real list \<Rightarrow> real" where
  "drawdown_scan p worst [] = worst"
| "drawdown_scan p worst (v # vs) =
     drawdown_scan (max p v)
       (if max p v = 0 then worst else min worst ((v - max p v) / max p v)) vs"

definition maxDrawdown :: "real list \<Rightarrow> real" where
  "maxDrawdown vs = (case vs of [] \<Rightarrow> 0 | v # rest \<Rightarrow> drawdown_scan v 0 vs)"

text \<open>
  Modelled from the spec: the trailing window of the rolling functions (the source's
  \<open>compute_rolling_volatility\<close>, \<open>compute_rolling_sharpe\<close> and \<open>compute_beta_alpha\<close>,
  whose module is missing).  The scan keeps the \<open>window\<close> most recent observations up
  to and including the current one, and yields a missing value while it holds fewer.
\<close>

definition last_n :: "nat \<Rightarrow> 'a list \<Rightarrow> 'a list" where
  "last_n n xs = drop (length xs - n) xs"

fun rolling_scan :: "('a list \<Rightarrow> pyval) \<Rightarrow> nat \<Rightarrow> 'a list \<Rightarrow> 'a list \<Rightarrow> pyval list" where
  "rolling_scan f w buf [] = []"
| "rolling_scan f w buf (x # xs) =
     (if length (last_n w (buf @ [x])) < w then NaN else f (last_n w (buf @ [x])))
     # rolling_scan f w (last_n w (buf @ [x])) xs"

definition rolling :: "('a list \<Rightarrow> pyval) \<Rightarrow> nat \<Rightarrow> 'a list \<Rightarrow> pyval list" where
  "rolling f w xs = rolling_scan f w [] xs"

text \<open>The numbers of a window, if none of its values is missing.\<close>

fun numbers :: "pyval list \<Rightarrow> real list option" where
  "numbers [] = Some []"
| "numbers (Num x # vs) = map_option ((#) x) (numbers vs)"
| "numbers (v # vs) = None"

definition mean :: "real list \<Rightarrow> real" where
  "mean xs = sum_list xs / real (length xs)"

text \<open>The sample variance (one degree of freedom less) and the sample covariance.\<close>

definition covariance :: "real list \<Rightarrow> real list \<Rightarrow> real" where
  "covariance xs ys =
     sum_list (map2 (\<lambda>x y. (x - mean xs) * (y - mean ys)) xs ys) / (real (length xs) - 1)"

definition variance :: "real list \<Rightarrow> real" where
  "variance xs = covariance xs xs"

definition stdev :: "real list \<Rightarrow> real" where
  "stdev xs = sqrt (variance xs)"

text \<open>
  Modelled from the spec: \<open>rollingVolatility(returnSeries, window, annualize)\<close>, the
  sample standard deviation of the trailing window, times \<open>sqrt(252)\<close> if annualized;
  missing where the window is not full, holds a missing value or has fewer than two
  observations.
\<close>

definition volatility_of :: "bool \<Rightarrow> pyval list \<Rightarrow> pyval" where
  "volatility_of annualize win =
     (case numbers win of
        None \<Rightarrow> NaN
      | Some rs \<Rightarrow>
          (if length rs < 2 then NaN
           else Num (stdev rs * (if annualize then sqrt 252 else 1))))"

definition rollingVolatility :: "pyval list \<Rightarrow> nat \<Rightarrow> bool \<Rightarrow> pyval list" where
  "rollingVolatility returns w annualize = rolling (volatility_of annualize) w returns"

text \<open>
  Modelled from the spec: \<open>rollingSharpe(returnSeries, window, riskFreeRate)\<close>, over
  each trailing window \<open>mean(excess) / stdev(excess) * sqrt(252)\<close> with
  \<open>excess = return - riskFreeRate / 252\<close>; missing when the standard deviation is 0 or
  the history is insufficient.
\<close>

definition sharpe_of :: "real \<Rightarrow> pyval list \<Rightarrow> pyval" where
  "sharpe_of risk_free_rate win =
     (case numbers win of
        None \<Rightarrow> NaN
      | Some rs \<Rightarrow>
          (if length rs < 2 \<or> stdev (map (\<lambda>r. r - risk_free_rate / 252) rs) = 0 then NaN
           else Num (mean (map (\<lambda>r. r - risk_free_rate / 252) rs)
                     / stdev (map (\<lambda>r. r - risk_free_rate / 252) rs) * sqrt 252)))"

definition rollingSharpe :: "pyval list \<Rightarrow> nat \<Rightarrow> real \<Rightarrow> pyval list" where
  "rollingSharpe returns w risk_free_rate = rolling (sharpe_of risk_free_rate) w returns"

text \<open>
  Modelled from the spec: \<open>rollingBetaAlpha(portfolioReturns, benchmarkReturns, window)\<close>
  on series already aligned: \<open>beta = covariance / variance(benchmark)\<close> and
  \<open>alpha = (mean(portfolio) - beta * mean(benchmark)) * 252\<close>; missing when the
  variance of the benchmark is 0 or the paired history is insufficient.
\<close>

definition beta_of :: "(pyval \<times> pyval) list \<Rightarrow> pyval" where
  "beta_of win =
     (case (numbers (map fst win), numbers (map snd win)) of
        (Some ps, Some bs) \<Rightarrow>
          (if length bs < 2 \<or> variance bs = 0 then NaN
           else Num (covariance ps bs / variance bs))
      | other \<Rightarrow> NaN)"

definition alpha_of :: "(pyval \<times> pyval) list \<Rightarrow> pyval" where
  "alpha_of win =
     (case (numbers (map fst win), numbers (map snd win)) of
        (Some ps, Some bs) \<Rightarrow>
          (if length bs < 2 \<or> variance bs = 0 then NaN
           else Num ((mean ps - covariance ps bs / variance bs * mean bs) * 252))
      | other \<Rightarrow> NaN)"

definition rollingBetaAlpha :: "pyval list \<Rightarrow> pyval list \<Rightarrow> nat \<Rightarrow> pyval list \<times> pyval list" where
  "rollingBetaAlpha portfolio benchmark w =
     (rolling beta_of w (zip portfolio benchmark), rolling alpha_of w (zip portfolio benchmark))"

text \<open>
  The specification's own formulas, to compare the scans with: the running peak at an
  index is the greatest value up to and including it, the drawdown at an index is
  \<open>(v[i] - p) / p\<close> for that peak, and the window at an index holds the \<open>window\<close>
  most recent observations up to and including it.
\<close>

definition running_peak :: "real list \<Rightarrow> nat \<Rightarrow> real" where
  "running_peak vs i = Max (set (take (Suc i) vs))"

definition drawdown_at :: "real list \<Rightarrow> nat \<Rightarrow> real" where
  "drawdown_at vs i = (vs ! i - running_peak vs i) / running_peak vs i"

definition window_at :: "'a list \<Rightarrow> nat \<Rightarrow> nat \<Rightarrow> 'a list" where
  "window_at xs w i = take w (drop (i + 1 - w) xs)"

text \<open>
  The five functions as the orchestrator calls them, on dated series: volatility
  annualized, Sharpe with risk-free rate 0.
\<close>

definition on_dates :: "series \<Rightarrow> pyval list \<Rightarrow> series" where
  "on_dates s vs = zip (map fst s) vs"

definition spec_lib :: analytics_lib where
  "spec_lib =
     \<lparr>compute_daily_returns =
        (\<lambda>s. case numbers (map snd s) of
                None \<Rightarrow> on_dates s (map (\<lambda>c. NaN) s)
              | Some vs \<Rightarrow> on_dates s (dailyReturns vs)),
      compute_max_drawdown =
        (\<lambda>s. case numbers (map snd s) of None \<Rightarrow> NaN | Some vs \<Rightarrow> Num (maxDrawdown vs)),
      compute_rolling_volatility = (\<lambda>s w. on_dates s (rollingVolatility (map snd s) w True)),
      compute_rolling_sharpe = (\<lambda>s w. on_dates s (rollingSharpe (map snd s) w 0)),
      compute_beta_alpha =
        (\<lambda>p b w. (on_dates p (fst (rollingBetaAlpha (map snd p) (map snd b) w)),
                  on_dates p (snd (rollingBetaAlpha (map snd p) (map snd b) w))))\<rparr>"

section \<open>Example data\<close>

text \<open>
  Two days of equity, 100 and then 110, with no analytics row yet; and the values a pass
  from day 1 computes for them.
\<close>

definition fresh_store :: store where
  "fresh_store =
     \<lparr>equity_curve = [(1 * 86400 + 3600, 100), (2 * 86400 + 3600, 110)],
      instruments = [], ohlc_daily = [], analytics_daily = []\<rparr>"

definition example_ctx :: pass_ctx where
  "example_ctx =
     \<lparr>start_date = 1,
      daily_equity = [(1, 100), (2, 110)],
      daily_returns = [(1, Num 0), (2, Num (1 / 10))],
      max_dd = Num 0,
      rolling_vol = [(1, NaN), (2, NaN)],
      rolling_sharpe = [(1, NaN), (2, NaN)],
      beta = [(1, PyNone), (2, PyNone)],
      alpha = [(1, PyNone), (2, PyNone)]\<rparr>"

text \<open>
  An analytics row left by an earlier computation, and the two days of equity with such
  a row for the first day only, and for both days.
\<close>

definition stale_row :: "int \<Rightarrow> obj" where
  "stale_row d =
     [''date'' \<mapsto> PyDate d, ''return_pct'' \<mapsto> Num (1 / 2), ''cum_return'' \<mapsto> Num (1 / 2),
      ''drawdown'' \<mapsto> Num (- 1 / 2), ''volatility_20d'' \<mapsto> Num 9, ''sharpe_60d'' \<mapsto> Num 9,
      ''beta_spy_60d'' \<mapsto> Num 9, ''alpha_spy_60d'' \<mapsto> Num 9]"

definition partial_store :: store where
  "partial_store = fresh_store\<lparr>analytics_daily := [stale_row 1]\<rparr>"

definition full_store :: store where
  "full_store = fresh_store\<lparr>analytics_daily := [stale_row 1, stale_row 2]\<rparr>"

text \<open>
  Three days of equity, 100, 110 and 121, with a row for each day; and two days on
  which the equity is 0.
\<close>

definition history_store :: store where
  "history_store =
     \<lparr>equity_curve = [(1 * 86400 + 3600, 100), (2 * 86400 + 3600, 110), (3 * 86400 + 3600, 121)],
      instruments = [], ohlc_daily = [],
      analytics_daily = [stale_row 1, stale_row 2, stale_row 3]\<rparr>"

definition zero_store :: store where
  "zero_store =
     \<lparr>equity_curve = [(1 * 86400 + 3600, 0), (2 * 86400 + 3600, 0)],
      instruments = [], ohlc_daily = [],
      analytics_daily = [stale_row 1, stale_row 2]\<rparr>"

text \<open>A parser that reads one timestamp, the midnight that begins day 1.\<close>

definition parse_day1 :: "string \<Rightarrow> int option" where
  "parse_day1 s = (if s = ''1970-01-02T00:00:00+00:00'' then Some 86400 else None)"


definition down :: "nat \<Rightarrow> nat option" where
  "down k = Some 0"







section \<open>Basic facts about the session and the loop\<close>

lemma roundtrip_frame:
  assumes "roundtrip db = (r, db1)"
  shows "stored db1 = stored db" "objects db1 = objects db"
    "commits db1 = commits db" "logged db1 = logged db"
  using assms by (auto simp: roundtrip_def split: option.splits nat.splits)

lemma select_analytics_frame:
  assumes "select_analytics d db = (r, db1)"
  shows "stored db1 = stored db" "objects db1 = objects db"
    "commits db1 = commits db" "logged db1 = logged db"
  using assms roundtrip_frame[of db]
  by (auto simp: select_analytics_def split: prod.splits sum.splits)

lemma scalar_one_Some: "scalar_one_or_none xs = Inr (Some x) \<Longrightarrow> xs = [x]"
  by (cases xs rule: scalar_one_or_none.cases) auto

lemma select_analytics_Some:
  assumes "select_analytics d db = (Inr (Some i), db1)"
  shows "i < length (objects db)" "(objects db ! i) ''date'' = Some (PyDate d)"
proof -
  let ?hits = "\<lambda>s. filter (\<lambda>i. (objects s ! i) ''date'' = Some (PyDate d)) [0 ..< length (objects s)]"
  obtain r0 db0 where r: "roundtrip db = (r0, db0)" by (cases "roundtrip db")
  with assms have "scalar_one_or_none (?hits db0) = Inr (Some i)"
    by (auto simp: select_analytics_def split: sum.splits)
  then have "?hits db0 = [i]" by (rule scalar_one_Some)
  then have "i \<in> set (?hits db0)" by simp
  then show "i < length (objects db)" "(objects db ! i) ''date'' = Some (PyDate d)"
    using roundtrip_frame(2)[OF r] by auto
qed

lemma constructor_rejects:
  "AnalyticsDaily ((''date'', PyDate d) # analytics_values c idx cum) = Inl (TypeError ''total_equity'')"
  by (simp add: AnalyticsDaily_def analytics_values_def values_before_def values_after_def
      AnalyticsDaily_attributes_def AnalyticsDaily_columns_def)

lemma setattrs_date: "setattrs ob (analytics_values c idx cum) ''date'' = ob ''date''"
  by (simp add: setattrs_def analytics_values_def values_before_def values_after_def)

lemma setattrs_before_date: "setattrs ob (values_before c idx) ''date'' = ob ''date''"
  by (simp add: setattrs_def values_before_def)

text \<open>
  The insert branch never adds an instance: it raises, in the division or else in the
  constructor.
\<close>

lemma store_loop_insert:
  assumes "\<not> fst (daily_equity c ! idx) < start_date c"
    and "select_analytics (fst (daily_equity c ! idx)) db = (Inr None, db1)"
  shows "store_loop c (idx # rest) db =
    (Inl (case cumulative_return c idx of
            Inl e \<Rightarrow> e | Inr cum \<Rightarrow> TypeError ''total_equity''), db1)"
  using assms
  by (cases "cumulative_return c idx") (simp_all add: constructor_rejects)

lemma map_update_same:
  assumes same: "f y = f (xs ! i)"
  shows "map f (xs[i := y]) = map f xs"
proof (rule nth_equalityI)
  show "length (map f (xs[i := y])) = length (map f xs)" by simp
next
  fix j assume "j < length (map f (xs[i := y]))"
  with same show "map f (xs[i := y]) ! j = map f xs ! j"
    by (cases "j = i") simp_all
qed

text \<open>
  The loop changes neither the committed store nor the commit count nor the log, and it
  leaves the dates of the session's instances as they are: it never adds an instance.
\<close>

lemma store_loop_frame:
  "store_loop c idxs db = (r, db') \<Longrightarrow>
     stored db' = stored db \<and> commits db' = commits db \<and> logged db' = logged db \<and>
     map (\<lambda>ob. ob ''date'') (objects db') = map (\<lambda>ob. ob ''date'') (objects db)"
proof (induction idxs arbitrary: db)
  case Nil
  then show ?case by simp
next
  case (Cons idx rest)
  let ?d = "fst (daily_equity c ! idx)"
  show ?case
  proof (cases "?d < start_date c")
    case True
    with Cons show ?thesis by simp
  next
    case False
    obtain r1 db1 where sel: "select_analytics ?d db = (r1, db1)"
      by (cases "select_analytics ?d db")
    note fr = select_analytics_frame[OF sel]
    show ?thesis
    proof (cases r1)
      case (Inl e)
      with Cons.prems False sel fr show ?thesis by simp
    next
      case (Inr found)
      show ?thesis
      proof (cases found)
        case None
        with store_loop_insert[OF False, of db db1 rest] sel Inr Cons.prems fr
        show ?thesis by simp
      next
        case (Some i)
        show ?thesis
        proof (cases "cumulative_return c idx")
          case (Inl e)
          let ?db2 = "db1\<lparr>objects :=
            (objects db1)[i := setattrs (objects db1 ! i) (values_before c idx)]\<rparr>"
          from Cons.prems False sel Inr Some Inl have "r = Inl e" "db' = ?db2" by simp_all
          moreover
          have "map (\<lambda>ob. ob ''date'') (objects ?db2) = map (\<lambda>ob. ob ''date'') (objects db1)"
            by (simp add: map_update_same setattrs_before_date)
          ultimately show ?thesis using fr by simp
        next
          case cum: (Inr cum)
          let ?db2 = "db1\<lparr>objects :=
            (objects db1)[i := setattrs (objects db1 ! i) (analytics_values c idx cum)]\<rparr>"
          from Cons.prems False sel Inr Some cum have "store_loop c rest ?db2 = (r, db')"
            by simp
          from Cons.IH[OF this]
          have ih: "stored db' = stored ?db2" "commits db' = commits ?db2"
            "logged db' = logged ?db2"
            "map (\<lambda>ob. ob ''date'') (objects db') = map (\<lambda>ob. ob ''date'') (objects ?db2)"
            by auto
          have "map (\<lambda>ob. ob ''date'') (objects ?db2) = map (\<lambda>ob. ob ''date'') (objects db1)"
            by (simp add: map_update_same setattrs_date)
          with ih fr show ?thesis by simp
        qed
      qed
    qed
  qed
qed

section \<open>Claims\<close>

text \<open>
  C9.  The names the orchestrator writes when it upserts an analytics record are
  \<open>date\<close>, \<open>total_equity\<close>, \<open>daily_return\<close>, \<open>cumulative_return\<close>, \<open>max_drawdown\<close>,
  \<open>volatility_20d\<close>, \<open>sharpe_60d\<close>, \<open>beta_spy_60d\<close> and \<open>alpha_spy_60d\<close>.  They do
  not coincide with the columns declared on \<open>AnalyticsDaily\<close>: four of the names are no
  column (\<open>total_equity\<close>, \<open>daily_return\<close>, \<open>cumulative_return\<close>, \<open>max_drawdown\<close>) and
  four columns are never written (\<open>id\<close>, \<open>return_pct\<close>, \<open>cum_return\<close>, \<open>drawdown\<close>).
  So the constructor call of the insert branch raises \<open>TypeError\<close> for every day and all
  values, a pass whose loop reaches the insert branch ends there instead of adding the
  record (with that error, or with the error of the division where the division of the
  cumulative return raises first), and the update branch assigns four attributes that
  are set on the instance but are not written by a flush, leaving the columns
  \<open>return_pct\<close>, \<open>cum_return\<close> and \<open>drawdown\<close> of the record as they were.
\<close>

theorem analytics_columns_mismatch:
  "map fst ((''date'', PyDate d) # analytics_values c idx cum) =
     [''date'', ''total_equity'', ''daily_return'', ''cumulative_return'', ''max_drawdown'',
      ''volatility_20d'', ''sharpe_60d'', ''beta_spy_60d'', ''alpha_spy_60d'']
   \<and> filter (\<lambda>k. k \<notin> set AnalyticsDaily_columns)
        (map fst ((''date'', PyDate d) # analytics_values c idx cum)) =
     [''total_equity'', ''daily_return'', ''cumulative_return'', ''max_drawdown'']
   \<and> filter (\<lambda>k. k \<notin> set (map fst ((''date'', PyDate d) # analytics_values c idx cum)))
        AnalyticsDaily_columns =
     [''id'', ''return_pct'', ''cum_return'', ''drawdown'']
   \<and> AnalyticsDaily ((''date'', PyDate d) # analytics_values c idx cum) =
     Inl (TypeError ''total_equity'')
   \<and> (\<not> fst (daily_equity c ! idx) < start_date c \<longrightarrow>
      select_analytics (fst (daily_equity c ! idx)) db = (Inr None, db1) \<longrightarrow>
      store_loop c (idx # rest) db =
        (Inl (case cumulative_return c idx of
                Inl e \<Rightarrow> e | Inr q \<Rightarrow> TypeError ''total_equity''), db1))
   \<and> (\<forall>k \<in> set [''total_equity'', ''daily_return'', ''cumulative_return'', ''max_drawdown''].
        setattrs ob (analytics_values c idx cum) k \<noteq> None \<and>
        persist (setattrs ob (analytics_values c idx cum)) k = None)
   \<and> (\<forall>k \<in> set [''return_pct'', ''cum_return'', ''drawdown''].
        persist (setattrs ob (analytics_values c idx cum)) k = persist ob k)"
proof -
  have names: "map fst ((''date'', PyDate d) # analytics_values c idx cum) =
     [''date'', ''total_equity'', ''daily_return'', ''cumulative_return'', ''max_drawdown'',
      ''volatility_20d'', ''sharpe_60d'', ''beta_spy_60d'', ''alpha_spy_60d'']"
    by (simp add: analytics_values_def values_before_def values_after_def)
  have extra: "filter (\<lambda>k. k \<notin> set AnalyticsDaily_columns)
        (map fst ((''date'', PyDate d) # analytics_values c idx cum)) =
     [''total_equity'', ''daily_return'', ''cumulative_return'', ''max_drawdown'']"
    unfolding names by (simp add: AnalyticsDaily_columns_def)
  have unwritten: "filter (\<lambda>k. k \<notin> set (map fst ((''date'', PyDate d) # analytics_values c idx cum)))
        AnalyticsDaily_columns =
     [''id'', ''return_pct'', ''cum_return'', ''drawdown'']"
    unfolding names by (simp add: AnalyticsDaily_columns_def)
  have ctor: "AnalyticsDaily ((''date'', PyDate d) # analytics_values c idx cum) =
     Inl (TypeError ''total_equity'')"
    by (rule constructor_rejects)
  have step: "\<not> fst (daily_equity c ! idx) < start_date c \<longrightarrow>
      select_analytics (fst (daily_equity c ! idx)) db = (Inr None, db1) \<longrightarrow>
      store_loop c (idx # rest) db =
        (Inl (case cumulative_return c idx of
                Inl e \<Rightarrow> e | Inr q \<Rightarrow> TypeError ''total_equity''), db1)"
    by (intro impI) (rule store_loop_insert)
  have unmapped: "\<forall>k \<in> set [''total_equity'', ''daily_return'', ''cumulative_return'', ''max_drawdown''].
        setattrs ob (analytics_values c idx cum) k \<noteq> None \<and>
        persist (setattrs ob (analytics_values c idx cum)) k = None"
    by (simp add: setattrs_def analytics_values_def values_before_def values_after_def persist_def AnalyticsDaily_columns_def
        restrict_map_def)
  have stale: "\<forall>k \<in> set [''return_pct'', ''cum_return'', ''drawdown''].
        persist (setattrs ob (analytics_values c idx cum)) k = persist ob k"
    by (simp add: setattrs_def analytics_values_def values_before_def values_after_def persist_def AnalyticsDaily_columns_def
        restrict_map_def)
  from names extra unwritten ctor step unmapped stale show ?thesis
    by (intro conjI)
qed

theorem analytics_columns_mismatch_witness:
  "\<not> fst (daily_equity example_ctx ! 0) < start_date example_ctx
   \<and> select_analytics (fst (daily_equity example_ctx ! 0)) (SessionLocal fresh_store None []) =
       (Inr None, SessionLocal fresh_store None [])
   \<and> cumulative_return example_ctx 0 = Inr (Num 0)
   \<and> store_loop example_ctx [0, 1] (SessionLocal fresh_store None []) =
       (Inl (TypeError ''total_equity''), SessionLocal fresh_store None [])
   \<and> ''daily_return'' \<in> set [''total_equity'', ''daily_return'', ''cumulative_return'', ''max_drawdown'']
   \<and> setattrs [''date'' \<mapsto> PyDate 1, ''return_pct'' \<mapsto> Num (1 / 2)]
        (analytics_values example_ctx 0 (Num 0)) ''daily_return'' = Some (Num 0)
   \<and> persist (setattrs [''date'' \<mapsto> PyDate 1, ''return_pct'' \<mapsto> Num (1 / 2)]
        (analytics_values example_ctx 0 (Num 0))) ''daily_return'' = None
   \<and> ''return_pct'' \<in> set [''return_pct'', ''cum_return'', ''drawdown'']
   \<and> persist (setattrs [''date'' \<mapsto> PyDate 1, ''return_pct'' \<mapsto> Num (1 / 2)]
        (analytics_values example_ctx 0 (Num 0))) ''return_pct'' = Some (Num (1 / 2))"
proof -
  have h1: "\<not> fst (daily_equity example_ctx ! 0) < start_date example_ctx"
    by (simp add: example_ctx_def)
  have h2: "select_analytics (fst (daily_equity example_ctx ! 0)) (SessionLocal fresh_store None []) =
       (Inr None, SessionLocal fresh_store None [])"
    by (simp add: select_analytics_def SessionLocal_def fresh_store_def roundtrip_def)
  have v: "setattrs [''date'' \<mapsto> PyDate 1, ''return_pct'' \<mapsto> Num (1 / 2)]
        (analytics_values example_ctx 0 (Num 0)) ''daily_return'' = Some (Num 0)"
    by (simp add: setattrs_def analytics_values_def values_before_def values_after_def example_ctx_def float_or_none_def
        iloc_or_none_def)
  have p: "persist [''date'' \<mapsto> PyDate 1, ''return_pct'' \<mapsto> Num (1 / 2)] ''return_pct'' =
       Some (Num (1 / 2))"
    by (simp add: persist_def AnalyticsDaily_columns_def restrict_map_def)
  have h3: "cumulative_return example_ctx 0 = Inr (Num 0)"
    by (simp add: cumulative_return_def decimal_div_def example_ctx_def)
  note t = analytics_columns_mismatch[where d = 1 and c = example_ctx and idx = 0
      and cum = "Num 0" and db = "SessionLocal fresh_store None []"
      and ?db1.0 = "SessionLocal fresh_store None []" and rest = "[1]"
      and ob = "[''date'' \<mapsto> PyDate 1, ''return_pct'' \<mapsto> Num (1 / 2)]"]
  from t h1 h2 have "store_loop example_ctx [0, 1] (SessionLocal fresh_store None []) =
       (Inl (case cumulative_return example_ctx 0 of
               Inl e \<Rightarrow> e | Inr q \<Rightarrow> TypeError ''total_equity''),
        SessionLocal fresh_store None [])"
    by blast
  with h3 have s: "store_loop example_ctx [0, 1] (SessionLocal fresh_store None []) =
       (Inl (TypeError ''total_equity''), SessionLocal fresh_store None [])"
    by simp
  from t have "persist (setattrs [''date'' \<mapsto> PyDate 1, ''return_pct'' \<mapsto> Num (1 / 2)]
        (analytics_values example_ctx 0 (Num 0))) ''daily_return'' = None"
    by simp
  moreover from t have "persist (setattrs [''date'' \<mapsto> PyDate 1, ''return_pct'' \<mapsto> Num (1 / 2)]
        (analytics_values example_ctx 0 (Num 0))) ''return_pct'' =
      persist [''date'' \<mapsto> PyDate 1, ''return_pct'' \<mapsto> Num (1 / 2)] ''return_pct''"
    by simp
  ultimately show ?thesis using h1 h2 h3 s v p by simp
qed

subsection \<open>The drawdown scan\<close>

lemma Min_insert_insert:
  assumes "finite S"
  shows "Min (insert a (insert b S)) = Min (insert (min a b) S)"
proof (cases "S = {}")
  case True
  then show ?thesis by (simp add: min.commute)
next
  case False
  with assms show ?thesis by (simp add: min.assoc)
qed

lemma running_peak_Cons:
  "i < length vs \<Longrightarrow> running_peak (v # vs) (Suc i) = max v (running_peak vs i)"
  by (cases vs) (simp_all add: running_peak_def)

lemma running_peak_0: "running_peak (v # vs) 0 = v"
  by (simp add: running_peak_def)

lemma running_peak_ge_hd: "i < length (v # vs) \<Longrightarrow> v \<le> running_peak (v # vs) i"
  by (simp add: running_peak_def)

lemma running_peak_pos:
  assumes "\<forall>x \<in> set vs. 0 < x" and "i < length vs"
  shows "0 < running_peak vs i"
proof -
  from assms(2) have ne: "vs \<noteq> []" by auto
  have "Max (set (take (Suc i) vs)) \<in> set (take (Suc i) vs)"
    by (rule Max_in) (simp_all add: ne)
  then have "Max (set (take (Suc i) vs)) \<in> set vs" by (rule in_set_takeD)
  with assms(1) show ?thesis by (simp add: running_peak_def)
qed

text \<open>
  The scan from peak \<open>p\<close> and lowest value \<open>w\<close> ends with the least of \<open>w\<close> and the
  drawdowns of the points it passes, each against the greater of \<open>p\<close> and its own
  running peak.
\<close>

lemma drawdown_scan_Min:
  "(\<forall>i < length vs. max p (running_peak vs i) \<noteq> 0) \<Longrightarrow>
   drawdown_scan p w vs =
     Min (insert w ((\<lambda>i. (vs ! i - max p (running_peak vs i)) / max p (running_peak vs i))
                      ` {..<length vs}))"
proof (induction vs arbitrary: p w)
  case Nil
  then show ?case by simp
next
  case (Cons v vs)
  let ?g = "\<lambda>q xs i. (xs ! i - max q (running_peak xs i)) / max q (running_peak xs i)"
  from Cons.prems have nz0: "max p v \<noteq> 0"
    using running_peak_0[of v vs] by (metis length_greater_0_conv list.distinct(1))
  have shift: "max p (running_peak (v # vs) (Suc i)) = max (max p v) (running_peak vs i)"
    if "i < length vs" for i
    using that by (simp add: running_peak_Cons max.assoc)
  have nz: "\<forall>i < length vs. max (max p v) (running_peak vs i) \<noteq> 0"
  proof (intro allI impI)
    fix i assume i: "i < length vs"
    then have "Suc i < length (v # vs)" by simp
    with Cons.prems have "max p (running_peak (v # vs) (Suc i)) \<noteq> 0" by blast
    with shift[OF i] show "max (max p v) (running_peak vs i) \<noteq> 0" by simp
  qed
  have img: "?g p (v # vs) ` {..<length (v # vs)} =
        insert ((v - max p v) / max p v) (?g (max p v) vs ` {..<length vs})"
  proof -
    have "{..<length (v # vs)} = insert 0 (Suc ` {..<length vs})"
      by (simp add: lessThan_Suc_eq_insert_0)
    then have "?g p (v # vs) ` {..<length (v # vs)} =
        insert (?g p (v # vs) 0) ((\<lambda>i. ?g p (v # vs) (Suc i)) ` {..<length vs})"
      by (simp add: image_image)
    also have "(\<lambda>i. ?g p (v # vs) (Suc i)) ` {..<length vs} = ?g (max p v) vs ` {..<length vs}"
      by (rule image_cong) (simp_all add: shift)
    finally show ?thesis by (simp add: running_peak_0)
  qed
  have "drawdown_scan p w (v # vs) =
        drawdown_scan (max p v) (min w ((v - max p v) / max p v)) vs"
    using nz0 by simp
  also have "\<dots> = Min (insert (min w ((v - max p v) / max p v))
                        (?g (max p v) vs ` {..<length vs}))"
    by (rule Cons.IH[OF nz])
  also have "\<dots> = Min (insert w (insert ((v - max p v) / max p v)
                        (?g (max p v) vs ` {..<length vs})))"
    by (rule Min_insert_insert[symmetric]) simp
  finally show ?case by (simp only: img)
qed

lemma maxDrawdown_Min:
  assumes "vs \<noteq> []" and nz: "\<forall>i < length vs. running_peak vs i \<noteq> 0"
  shows "maxDrawdown vs = Min (drawdown_at vs ` {..<length vs})"
proof -
  from assms obtain v rest where vs: "vs = v # rest" by (cases vs) auto
  have pk: "max v (running_peak vs i) = running_peak vs i" if "i < length vs" for i
    using running_peak_ge_hd[of i v rest] that vs by (simp add: max_def)
  have nz': "\<forall>i < length vs. max v (running_peak vs i) \<noteq> 0"
    using nz pk by simp
  have "v \<noteq> 0"
    using nz vs running_peak_0[of v rest] by (metis length_greater_0_conv list.distinct(1))
  then have zero: "drawdown_at vs 0 = 0"
    by (simp add: drawdown_at_def vs running_peak_0)
  have "maxDrawdown vs = drawdown_scan v 0 vs" by (simp add: maxDrawdown_def vs)
  also have "\<dots> = Min (insert 0
      ((\<lambda>i. (vs ! i - max v (running_peak vs i)) / max v (running_peak vs i)) ` {..<length vs}))"
    by (rule drawdown_scan_Min[OF nz'])
  also have "(\<lambda>i. (vs ! i - max v (running_peak vs i)) / max v (running_peak vs i)) ` {..<length vs}
      = drawdown_at vs ` {..<length vs}"
    by (rule image_cong) (simp_all add: pk drawdown_at_def)
  also have "insert 0 (drawdown_at vs ` {..<length vs}) = drawdown_at vs ` {..<length vs}"
  proof -
    have "0 \<in> drawdown_at vs ` {..<length vs}"
      using zero vs by (metis imageI length_greater_0_conv lessThan_iff list.distinct(1))
    then show ?thesis by (simp add: insert_absorb)
  qed
  finally show ?thesis .
qed

lemma drawdown_scan_sorted:
  "sorted vs \<Longrightarrow> (\<forall>x \<in> set vs. p \<le> x) \<Longrightarrow> drawdown_scan p 0 vs = 0"
proof (induction vs arbitrary: p)
  case Nil
  then show ?case by simp
next
  case (Cons v vs)
  then have "max p v = v" by (simp add: max_def)
  moreover from Cons.prems have "sorted vs" "\<forall>x \<in> set vs. v \<le> x" by auto
  ultimately show ?case using Cons.IH[of v] by auto
qed

lemma maxDrawdown_sorted: "sorted vs \<Longrightarrow> maxDrawdown vs = 0"
  by (cases vs) (auto simp: maxDrawdown_def intro!: drawdown_scan_sorted)

text \<open>
  C6.  \<open>maxDrawdown\<close> of an equity series is the minimum over all indices \<open>i\<close> of
  \<open>(v[i] - p_i) / p_i\<close>, where \<open>p_i\<close> is the running maximum of the series up to \<open>i\<close>
  (for a series that is not empty and whose running maxima are not 0, so that every
  quotient exists); for every monotonically non-decreasing series the result is
  exactly 0; for the series 100, 110, 105, 95, 100, 120 it is \<open>(95 - 110) / 110\<close>, which
  is \<open>-0.1364\<close> to four places.  It is one scalar, computed without any window: the
  orchestrator computes it once from the whole daily series and writes that one value
  for every day of the pass.
\<close>

theorem maxDrawdown_running_peak:
  "(vs \<noteq> [] \<longrightarrow> (\<forall>i < length vs. running_peak vs i \<noteq> 0) \<longrightarrow>
      maxDrawdown vs = Min (drawdown_at vs ` {..<length vs}))
   \<and> (sorted vs \<longrightarrow> maxDrawdown vs = 0)
   \<and> maxDrawdown [100, 110, 105, 95, 100, 120] = (95 - 110) / 110
   \<and> \<bar>maxDrawdown [100, 110, 105, 95, 100, 120] - (- 0.1364)\<bar> < 0.0001
   \<and> map_of (analytics_values (make_ctx L start daily spy) idx cum) ''max_drawdown'' =
       Some (compute_max_drawdown L (to_series daily))"
proof -
  have a: "vs \<noteq> [] \<longrightarrow> (\<forall>i < length vs. running_peak vs i \<noteq> 0) \<longrightarrow>
      maxDrawdown vs = Min (drawdown_at vs ` {..<length vs})"
    by (intro impI) (rule maxDrawdown_Min)
  have b: "sorted vs \<longrightarrow> maxDrawdown vs = 0"
    by (intro impI) (rule maxDrawdown_sorted)
  have c: "maxDrawdown [100, 110, 105, 95, 100, 120] = (95 - 110) / 110"
    by (simp add: maxDrawdown_def)
  have d: "\<bar>maxDrawdown [100, 110, 105, 95, 100, 120] - (- 0.1364)\<bar> < 0.0001"
    by (simp add: maxDrawdown_def)
  have e: "map_of (analytics_values (make_ctx L start daily spy) idx cum) ''max_drawdown'' =
       Some (compute_max_drawdown L (to_series daily))"
    by (simp add: analytics_values_def values_before_def values_after_def make_ctx_def Let_def)
  from a b c d e show ?thesis by (intro conjI)
qed

theorem maxDrawdown_running_peak_witness:
  "[100, 110, 105, 95, 100, 120] \<noteq> ([] :: real list)
   \<and> list_all (\<lambda>i. running_peak [100, 110, 105, 95, 100, 120] i \<noteq> 0) [0, 1, 2, 3, 4, 5]
   \<and> Min (drawdown_at [100, 110, 105, 95, 100, 120] ` {..<length [100, 110, 105, 95, 100, 120 :: real]})
       = - 3 / 22
   \<and> sorted [100, 105, 110, 115, 120 :: real]
   \<and> maxDrawdown [100, 105, 110, 115, 120] = 0"
proof -
  let ?vs = "[100, 110, 105, 95, 100, 120] :: real list"
  have pos: "\<forall>x \<in> set ?vs. 0 < x" by simp
  have nz: "\<forall>i < length ?vs. running_peak ?vs i \<noteq> 0"
    using running_peak_pos[OF pos] by fastforce
  have peaks: "list_all (\<lambda>i. running_peak ?vs i \<noteq> 0) [0, 1, 2, 3, 4, 5]"
    using nz by simp
  have ne: "?vs \<noteq> []" by simp
  have s: "sorted [100, 105, 110, 115, 120 :: real]" by simp
  note t1 = maxDrawdown_running_peak[of ?vs]
  from t1 ne nz have "maxDrawdown ?vs = Min (drawdown_at ?vs ` {..<length ?vs})" by blast
  moreover from t1 have "maxDrawdown ?vs = (95 - 110) / 110" by blast
  ultimately have m: "Min (drawdown_at ?vs ` {..<length ?vs}) = - 3 / 22" by simp
  from maxDrawdown_running_peak[of "[100, 105, 110, 115, 120]"] s
  have z: "maxDrawdown [100, 105, 110, 115, 120] = 0" by blast
  from ne peaks m s z show ?thesis by (intro conjI)
qed

subsection \<open>The rolling windows\<close>

lemma last_n_absorb: "last_n w (last_n w ys @ zs) = last_n w (ys @ zs)"
proof (cases "length ys \<le> w")
  case True
  then show ?thesis by (simp add: last_n_def)
next
  case False
  then have "length ys + length zs - (length ys - w + w) + (length ys - w) =
             length ys + length zs - w"
    by simp
  with False show ?thesis by (simp add: last_n_def)
qed

lemma length_rolling_scan: "length (rolling_scan f w buf xs) = length xs"
  by (induction xs arbitrary: buf) simp_all

lemma rolling_scan_nth:
  "i < length xs \<Longrightarrow>
   rolling_scan f w buf xs ! i =
     (if length (last_n w (buf @ take (Suc i) xs)) < w then NaN
      else f (last_n w (buf @ take (Suc i) xs)))"
proof (induction xs arbitrary: buf i)
  case Nil
  then show ?case by simp
next
  case (Cons x xs)
  show ?case
  proof (cases i)
    case 0
    then show ?thesis by simp
  next
    case (Suc j)
    with Cons.prems have j: "j < length xs" by simp
    have "last_n w (last_n w (buf @ [x]) @ take (Suc j) xs) =
          last_n w (buf @ take (Suc i) (x # xs))"
      by (simp add: last_n_absorb Suc)
    with Cons.IH[OF j, of "last_n w (buf @ [x])"] Suc show ?thesis by simp
  qed
qed

lemma last_n_take:
  assumes i: "i < length xs" and w: "w \<le> Suc i"
  shows "last_n w (take (Suc i) xs) = window_at xs w i"
proof -
  from i have "length (take (Suc i) xs) = Suc i" by simp
  then have "last_n w (take (Suc i) xs) = drop (Suc i - w) (take (Suc i) xs)"
    by (simp only: last_n_def)
  also have "\<dots> = take (Suc i - (Suc i - w)) (drop (Suc i - w) xs)"
    by (simp only: drop_take)
  also have "Suc i - (Suc i - w) = w" using w by simp
  finally show ?thesis by (simp add: window_at_def)
qed

lemma rolling_nth_early:
  "i < length xs \<Longrightarrow> Suc i < w \<Longrightarrow> rolling f w xs ! i = NaN"
  by (simp add: rolling_def rolling_scan_nth last_n_def)

lemma rolling_nth_full:
  assumes i: "i < length xs" and w: "w \<le> Suc i"
  shows "rolling f w xs ! i = f (window_at xs w i)"
proof -
  have "length (window_at xs w i) = w" using i w by (simp add: window_at_def)
  with i w show ?thesis
    using last_n_take [of i xs w] by (simp add: rolling_def rolling_scan_nth)
qed

lemma numbers_length: "numbers cs = Some rs \<Longrightarrow> length rs = length cs"
proof (induction cs arbitrary: rs rule: numbers.induct)
  case 1
  then show ?case by simp
next
  case (2 x vs)
  then show ?case by (cases "numbers vs") auto
qed simp_all

lemma volatility_full:
  assumes "i < length rs" "w \<le> Suc i" "2 \<le> w" "numbers (window_at rs w i) = Some ws"
  shows "rollingVolatility rs w a ! i = Num (stdev ws * (if a then sqrt 252 else 1))"
proof -
  have "length (window_at rs w i) = w" using assms by (simp add: window_at_def)
  with numbers_length[OF assms(4)] assms(3) have "\<not> length ws < 2" by simp
  with assms show ?thesis
    by (simp add: rollingVolatility_def rolling_nth_full volatility_of_def)
qed

lemma sharpe_full:
  assumes "i < length rs" "w \<le> Suc i" "2 \<le> w" "numbers (window_at rs w i) = Some ws"
    "stdev (map (\<lambda>r. r - rf / 252) ws) \<noteq> 0"
  shows "rollingSharpe rs w rf ! i =
         Num (mean (map (\<lambda>r. r - rf / 252) ws) / stdev (map (\<lambda>r. r - rf / 252) ws) * sqrt 252)"
proof -
  have "length (window_at rs w i) = w" using assms by (simp add: window_at_def)
  with numbers_length[OF assms(4)] assms(3) have "\<not> length ws < 2" by simp
  with assms show ?thesis
    by (simp add: rollingSharpe_def rolling_nth_full sharpe_of_def)
qed

text \<open>
  C7.  For every return series and window size \<open>w\<close>, \<open>rollingVolatility\<close> and
  \<open>rollingSharpe\<close> produce a series of the length of the input; every index below
  \<open>w - 1\<close> is missing; at every index from \<open>w - 1\<close> on the value is computed from the
  \<open>w\<close> most recent observations up to and including that index, and it is a number
  when the data are sufficient and not degenerate: a window of at least two
  observations, none of them missing, and for Sharpe a standard deviation that is not 0.
\<close>

theorem rolling_window_indices:
  "length (rollingVolatility rs w a) = length rs
   \<and> length (rollingSharpe rs w rf) = length rs
   \<and> (\<forall>i < length rs. i + 1 < w \<longrightarrow>
        rollingVolatility rs w a ! i = NaN \<and> rollingSharpe rs w rf ! i = NaN)
   \<and> (\<forall>i < length rs. w \<le> i + 1 \<longrightarrow>
        rollingVolatility rs w a ! i = volatility_of a (window_at rs w i) \<and>
        rollingSharpe rs w rf ! i = sharpe_of rf (window_at rs w i))
   \<and> (\<forall>i < length rs. \<forall>ws. w \<le> i + 1 \<longrightarrow> 2 \<le> w \<longrightarrow>
        numbers (window_at rs w i) = Some ws \<longrightarrow>
        rollingVolatility rs w a ! i = Num (stdev ws * (if a then sqrt 252 else 1)) \<and>
        (stdev (map (\<lambda>r. r - rf / 252) ws) \<noteq> 0 \<longrightarrow>
         rollingSharpe rs w rf ! i =
           Num (mean (map (\<lambda>r. r - rf / 252) ws)
                / stdev (map (\<lambda>r. r - rf / 252) ws) * sqrt 252)))"
proof -
  have len: "length (rollingVolatility rs w a) = length rs"
    "length (rollingSharpe rs w rf) = length rs"
    by (simp_all add: rollingVolatility_def rollingSharpe_def rolling_def length_rolling_scan)
  have early: "\<forall>i < length rs. i + 1 < w \<longrightarrow>
        rollingVolatility rs w a ! i = NaN \<and> rollingSharpe rs w rf ! i = NaN"
    by (simp add: rollingVolatility_def rollingSharpe_def rolling_nth_early)
  have full: "\<forall>i < length rs. w \<le> i + 1 \<longrightarrow>
        rollingVolatility rs w a ! i = volatility_of a (window_at rs w i) \<and>
        rollingSharpe rs w rf ! i = sharpe_of rf (window_at rs w i)"
    by (simp add: rollingVolatility_def rollingSharpe_def rolling_nth_full)
  have num: "\<forall>i < length rs. \<forall>ws. w \<le> i + 1 \<longrightarrow> 2 \<le> w \<longrightarrow>
        numbers (window_at rs w i) = Some ws \<longrightarrow>
        rollingVolatility rs w a ! i = Num (stdev ws * (if a then sqrt 252 else 1)) \<and>
        (stdev (map (\<lambda>r. r - rf / 252) ws) \<noteq> 0 \<longrightarrow>
         rollingSharpe rs w rf ! i =
           Num (mean (map (\<lambda>r. r - rf / 252) ws)
                / stdev (map (\<lambda>r. r - rf / 252) ws) * sqrt 252))"
    using volatility_full[of _ rs w _ a] sharpe_full[of _ rs w _ rf] by simp
  from len early full num show ?thesis by (intro conjI)
qed

theorem rolling_window_indices_witness:
  "(0 :: nat) < length [Num 1, Num 3, Num 5] \<and> (0 :: nat) + 1 < 2
   \<and> rollingVolatility [Num 1, Num 3, Num 5] 2 False ! 0 = NaN
   \<and> rollingSharpe [Num 1, Num 3, Num 5] 2 0 ! 0 = NaN
   \<and> (2 :: nat) < length [Num 1, Num 3, Num 5] \<and> (2 :: nat) \<le> 2 + 1
   \<and> numbers (window_at [Num 1, Num 3, Num 5] 2 2) = Some [3, 5]
   \<and> stdev (map (\<lambda>r. r - 0 / 252) [3, 5]) \<noteq> 0
   \<and> rollingVolatility [Num 1, Num 3, Num 5] 2 False ! 2 = Num (sqrt 2)
   \<and> rollingSharpe [Num 1, Num 3, Num 5] 2 0 ! 2 = Num (4 / sqrt 2 * sqrt 252)"
proof -
  let ?rs = "[Num 1, Num 3, Num 5]"
  have n: "numbers (window_at ?rs 2 2) = Some [3, 5]" by (simp add: window_at_def)
  have sd: "stdev [3, 5] = sqrt 2"
    by (simp add: stdev_def variance_def covariance_def mean_def)
  have mn: "mean [3, 5] = 4" by (simp add: mean_def)
  note t = rolling_window_indices[of ?rs 2 False 0]
  from t have early: "\<forall>i < length ?rs. i + 1 < 2 \<longrightarrow>
        rollingVolatility ?rs 2 False ! i = NaN \<and> rollingSharpe ?rs 2 0 ! i = NaN"
    by (elim conjE)
  from early[rule_format, of 0]
  have e: "rollingVolatility ?rs 2 False ! 0 = NaN \<and> rollingSharpe ?rs 2 0 ! 0 = NaN"
    by simp
  from t have num: "\<forall>i < length ?rs. \<forall>ws. 2 \<le> i + 1 \<longrightarrow> (2 :: nat) \<le> 2 \<longrightarrow>
        numbers (window_at ?rs 2 i) = Some ws \<longrightarrow>
        rollingVolatility ?rs 2 False ! i = Num (stdev ws * (if False then sqrt 252 else 1)) \<and>
        (stdev (map (\<lambda>r. r - 0 / 252) ws) \<noteq> 0 \<longrightarrow>
         rollingSharpe ?rs 2 0 ! i =
           Num (mean (map (\<lambda>r. r - 0 / 252) ws)
                / stdev (map (\<lambda>r. r - 0 / 252) ws) * sqrt 252))"
    by (elim conjE)
  from num[rule_format, of 2 "[3, 5]"] n
  have "rollingVolatility ?rs 2 False ! 2 = Num (stdev [3, 5] * (if False then sqrt 252 else 1)) \<and>
        (stdev (map (\<lambda>r. r - 0 / 252) [3, 5]) \<noteq> 0 \<longrightarrow>
         rollingSharpe ?rs 2 0 ! 2 =
           Num (mean (map (\<lambda>r. r - 0 / 252) [3, 5])
                / stdev (map (\<lambda>r. r - 0 / 252) [3, 5]) * sqrt 252))"
    by simp
  with sd mn have f: "rollingVolatility ?rs 2 False ! 2 = Num (sqrt 2)"
    "rollingSharpe ?rs 2 0 ! 2 = Num (4 / sqrt 2 * sqrt 252)"
    by simp_all
  from e f n sd show ?thesis by simp
qed

subsection \<open>One pass, one commit\<close>

lemma select_equity_frame:
  assumes "select_equity t0 db = (r, db1)"
  shows "stored db1 = stored db" "objects db1 = objects db" "commits db1 = commits db" "logged db1 = logged db"
  using assms roundtrip_frame[of db]
  by (auto simp: select_equity_def split: prod.splits sum.splits)

lemma select_instrument_frame:
  assumes "select_instrument symbol db = (r, db1)"
  shows "stored db1 = stored db" "objects db1 = objects db" "commits db1 = commits db" "logged db1 = logged db"
  using assms roundtrip_frame[of db]
  by (auto simp: select_instrument_def split: prod.splits sum.splits)

lemma select_ohlc_frame:
  assumes "select_ohlc i d db = (r, db1)"
  shows "stored db1 = stored db" "objects db1 = objects db" "commits db1 = commits db" "logged db1 = logged db"
  using assms roundtrip_frame[of db]
  by (auto simp: select_ohlc_def split: prod.splits sum.splits)

lemma get_benchmark_returns_frame:
  assumes "get_benchmark_returns symbol d db = (r, db1)"
  shows "stored db1 = stored db" "objects db1 = objects db" "commits db1 = commits db" "logged db1 = logged db"
proof -
  obtain r1 d1 where a: "select_instrument symbol db = (r1, d1)" by (cases "select_instrument symbol db")
  note f1 = select_instrument_frame[OF a]
  show "stored db1 = stored db" "objects db1 = objects db" "commits db1 = commits db" "logged db1 = logged db"
    using assms a f1 select_ohlc_frame[of _ d d1]
    by (auto simp: get_benchmark_returns_def split: prod.splits sum.splits option.splits if_splits)
qed

lemma commit_result:
  assumes "commit db = (r, db1)"
  shows "(\<exists>e. r = Inl e \<and> stored db1 = stored db \<and> commits db1 = commits db \<and> objects db1 = objects db \<and> logged db1 = logged db) \<or>
         (r = Inr () \<and> stored db1 = (stored db)\<lparr>analytics_daily := map persist (objects db)\<rparr> \<and>
          commits db1 = Suc (commits db) \<and> objects db1 = objects db \<and> logged db1 = logged db)"
proof -
  obtain r0 d0 where a: "roundtrip db = (r0, d0)" by (cases "roundtrip db")
  note f = roundtrip_frame[OF a]
  show ?thesis using assms a f by (cases r0) (auto simp: commit_def)
qed

text \<open>The pass, as a case distinction on how it ends.\<close>

lemma pass_cases:
  assumes "recompute_analytics_from_date L start db = (r, db')"
  shows "(stored db' = stored db \<and> commits db' = commits db \<and>
            (r = Inr () \<longrightarrow> objects db' = objects db)) \<or>
         (r = Inr () \<and> commits db' = Suc (commits db) \<and>
            stored db' = (stored db)\<lparr>analytics_daily := map persist (objects db')\<rparr> \<and>
            map (\<lambda>ob. ob ''date'') (objects db') = map (\<lambda>ob. ob ''date'') (objects db))"
proof -
  obtain r1 d1 where a: "select_equity (combine_min start) db = (r1, d1)"
    by (cases "select_equity (combine_min start) db")
  note f1 = select_equity_frame[OF a]
  show ?thesis
  proof (cases r1)
    case (Inl e)
    with assms a f1 show ?thesis by (auto simp: recompute_analytics_from_date_def)
  next
    case (Inr equity_data)
    show ?thesis
    proof (cases "equity_data = [] \<or> length (resample_last equity_data) < 2")
      case True
      with assms a f1 Inr show ?thesis
        by (auto simp: recompute_analytics_from_date_def logger_def Let_def split: if_splits)
    next
      case False
      obtain r2 d2 where b: "get_benchmark_returns ''SPY'' start d1 = (r2, d2)"
        by (cases "get_benchmark_returns ''SPY'' start d1")
      note f2 = get_benchmark_returns_frame[OF b]
      show ?thesis
      proof (cases r2)
        case (Inl e)
        with assms a f1 Inr False b f2 show ?thesis
          by (auto simp: recompute_analytics_from_date_def Let_def)
      next
        case spy: (Inr spy_data)
        let ?c = "make_ctx L start (resample_last equity_data) spy_data"
        obtain r3 d3 where c: "store_loop ?c [0 ..< length (resample_last equity_data)] d2 = (r3, d3)"
          by (cases "store_loop ?c [0 ..< length (resample_last equity_data)] d2")
        note f3 = store_loop_frame[OF c]
        show ?thesis
        proof (cases r3)
          case (Inl e)
          with assms a f1 Inr False b f2 spy c f3 show ?thesis
            by (auto simp: recompute_analytics_from_date_def Let_def)
        next
          case loop: (Inr u)
          obtain r4 d4 where d: "commit d3 = (r4, d4)" by (cases "commit d3")
          from commit_result[OF d] show ?thesis
          proof
            assume "\<exists>e. r4 = Inl e \<and> stored d4 = stored d3 \<and> commits d4 = commits d3 \<and> objects d4 = objects d3 \<and> logged d4 = logged d3"
            with assms a f1 Inr False b f2 spy c f3 loop d show ?thesis
              by (auto simp: recompute_analytics_from_date_def Let_def)
          next
            assume "r4 = Inr () \<and> stored d4 = (stored d3)\<lparr>analytics_daily := map persist (objects d3)\<rparr> \<and>
              commits d4 = Suc (commits d3) \<and> objects d4 = objects d3 \<and> logged d4 = logged d3"
            with assms a f1 Inr False b f2 spy c f3 loop d show ?thesis
              by (auto simp: recompute_analytics_from_date_def Let_def logger_def)
          qed
        qed
      qed
    qed
  qed
qed


lemma make_ctx_sel:
  "start_date (make_ctx L s d spy) = s"
  "daily_equity (make_ctx L s d spy) = d"
  by (simp_all add: make_ctx_def Let_def)

lemma stale_row_date: "stale_row d ''date'' = Some (PyDate d)"
  by (simp add: stale_row_def)

lemmas eval_pass = recompute_analytics_from_date_def select_equity_def roundtrip_def
  SessionLocal_def combine_min_def date_of_def get_benchmark_returns_def select_instrument_def
  select_analytics_def Let_def make_ctx_sel setattrs_date stale_row_date constructor_rejects
  commit_def logger_def cumulative_return_def decimal_div_def

lemma ev1: "fst (recompute_analytics_from_date L 1 (SessionLocal partial_store None [])) = Inl (TypeError ''total_equity'')"
  by (simp add: eval_pass partial_store_def fresh_store_def)

lemma ev2: "objects (snd (recompute_analytics_from_date L 1 (SessionLocal partial_store None []))) = 
     [setattrs (stale_row 1) (analytics_values (make_ctx L 1 [(1, 100), (2, 110)] None) 0 (Num 0))]"
  by (simp add: eval_pass partial_store_def fresh_store_def)

lemma ev3: "fst (recompute_analytics_from_date L 1 (SessionLocal full_store None [])) = Inr ()"
  by (simp add: eval_pass full_store_def fresh_store_def)

lemma ev4: "commits (snd (recompute_analytics_from_date L 1 (SessionLocal full_store None []))) = 1"
  by (simp add: eval_pass full_store_def fresh_store_def)



lemma setattrs_vol:
  "setattrs ob (analytics_values c idx cum) ''volatility_20d'' =
     Some (float_or_none (iloc_or_none (rolling_vol c) idx))"
  by (simp add: setattrs_def analytics_values_def values_before_def values_after_def)




subsection \<open>A second pass changes nothing\<close>

lemma setattrs_map_add: "setattrs ob kvs = ob ++ map_of (rev kvs)"
proof (induction kvs arbitrary: ob)
  case Nil
  then show ?case by (simp add: setattrs_def)
next
  case (Cons kv kvs)
  have "setattrs ob (kv # kvs) = setattrs (ob(fst kv \<mapsto> snd kv)) kvs"
    by (simp add: setattrs_def)
  also have "\<dots> = ob(fst kv \<mapsto> snd kv) ++ map_of (rev kvs)" by (rule Cons.IH)
  also have "\<dots> = ob ++ map_of (rev (kv # kvs))"
  proof (rule ext)
    fix x
    show "(ob(fst kv \<mapsto> snd kv) ++ map_of (rev kvs)) x = (ob ++ map_of (rev (kv # kvs))) x"
      by (cases kv) (simp add: map_add_def split: option.splits)
  qed
  finally show ?case .
qed


lemma persist_absorb: "persist (persist (a ++ M) ++ M) = persist (a ++ M)"
  by (rule ext) (simp add: persist_def restrict_map_def map_add_def split: option.splits)

lemma persist_date: "persist ob ''date'' = ob ''date''"
  by (simp add: persist_def AnalyticsDaily_columns_def)

lemma map2_update_add:
  assumes "length Ms = length xs" "i < length xs"
  shows "map2 (++) (xs[i := xs ! i ++ K]) Ms = map2 (++) xs (Ms[i := K ++ (Ms ! i)])"
proof (rule nth_equalityI)
  show "length (map2 (++) (xs[i := xs ! i ++ K]) Ms) = length (map2 (++) xs (Ms[i := K ++ (Ms ! i)]))"
    by simp
next
  fix j assume "j < length (map2 (++) (xs[i := xs ! i ++ K]) Ms)"
  with assms show "map2 (++) (xs[i := xs ! i ++ K]) Ms ! j = map2 (++) xs (Ms[i := K ++ (Ms ! i)]) ! j"
    by (cases "j = i") simp_all
qed

lemma map2_empty: "length xs = n \<Longrightarrow> map2 (++) xs (replicate n Map.empty) = xs"
  by (rule nth_equalityI) auto

lemma select_analytics_agree:
  assumes d: "map (\<lambda>ob. ob ''date'') (objects dbA) = map (\<lambda>ob. ob ''date'') (objects dbB)"
    and a: "select_analytics day dbA = (Inr x, dbA1)"
    and b: "select_analytics day dbB = (Inr y, dbB1)"
  shows "x = y"
proof -
  obtain ra a0 where ra: "roundtrip dbA = (ra, a0)" by (cases "roundtrip dbA")
  obtain rb b0 where rb: "roundtrip dbB = (rb, b0)" by (cases "roundtrip dbB")
  note fa = roundtrip_frame(2)[OF ra] and fb = roundtrip_frame(2)[OF rb]
  from d have len: "length (objects dbA) = length (objects dbB)" by (rule map_eq_imp_length_eq)
  have nth_eq: "(objects dbA ! i) ''date'' = (objects dbB ! i) ''date''" if "i < length (objects dbB)" for i
  proof -
    from that len have "map (\<lambda>ob. ob ''date'') (objects dbA) ! i = (objects dbA ! i) ''date''"
      "map (\<lambda>ob. ob ''date'') (objects dbB) ! i = (objects dbB ! i) ''date''" by simp_all
    with d show ?thesis by simp
  qed
  have hits: "filter (\<lambda>i. (objects dbA ! i) ''date'' = Some (PyDate day)) [0 ..< length (objects dbA)] =
              filter (\<lambda>i. (objects dbB ! i) ''date'' = Some (PyDate day)) [0 ..< length (objects dbB)]"
    unfolding len by (rule filter_cong) (simp_all add: nth_eq)
  from a ra fa have "scalar_one_or_none (filter (\<lambda>i. (objects dbA ! i) ''date'' = Some (PyDate day)) [0 ..< length (objects dbA)]) = Inr x"
    by (auto simp: select_analytics_def split: sum.splits)
  moreover from b rb fb have "scalar_one_or_none (filter (\<lambda>i. (objects dbB ! i) ''date'' = Some (PyDate day)) [0 ..< length (objects dbB)]) = Inr y"
    by (auto simp: select_analytics_def split: sum.splits)
  ultimately show ?thesis using hits by simp
qed

lemma store_loop_step:
  assumes ok: "store_loop c (idx # rest) db = (Inr (), db')"
    and ge: "\<not> fst (daily_equity c ! idx) < start_date c"
  shows "\<exists>i db1 cum. select_analytics (fst (daily_equity c ! idx)) db = (Inr (Some i), db1) \<and>
      cumulative_return c idx = Inr cum \<and>
      store_loop c rest
        (db1\<lparr>objects := (objects db1)[i := setattrs (objects db1 ! i) (analytics_values c idx cum)]\<rparr>) =
      (Inr (), db')"
proof -
  obtain r1 db1 where sel: "select_analytics (fst (daily_equity c ! idx)) db = (r1, db1)"
    by (cases "select_analytics (fst (daily_equity c ! idx)) db")
  show ?thesis
  proof (cases r1)
    case (Inl e)
    with ok ge sel show ?thesis by simp
  next
    case (Inr found)
    show ?thesis
    proof (cases found)
      case None
      with store_loop_insert[OF ge, of db db1 rest] sel Inr ok show ?thesis by simp
    next
      case (Some i)
      with ok ge sel Inr show ?thesis by (cases "cumulative_return c idx") simp_all
    qed
  qed
qed

lemma store_loop_pointwise:
  "store_loop c idxs db = (Inr (), db') \<Longrightarrow>
   \<exists>Ms. length Ms = length (objects db) \<and>
        objects db' = map2 (++) (objects db) Ms \<and>
        (\<forall>dbB dbB'. map (\<lambda>ob. ob ''date'') (objects dbB) = map (\<lambda>ob. ob ''date'') (objects db) \<longrightarrow>
            store_loop c idxs dbB = (Inr (), dbB') \<longrightarrow>
            objects dbB' = map2 (++) (objects dbB) Ms)"
proof (induction idxs arbitrary: db)
  case Nil
  then have eq: "objects db' = objects db" by simp
  show ?case
  proof (intro exI[of _ "replicate (length (objects db)) Map.empty"] conjI allI impI)
    show "length (replicate (length (objects db)) (Map.empty :: obj)) = length (objects db)"
      by simp
    show "objects db' = map2 (++) (objects db) (replicate (length (objects db)) Map.empty)"
      using eq by (simp add: map2_empty)
    fix dbB dbB'
    assume d: "map (\<lambda>ob. ob ''date'') (objects dbB) = map (\<lambda>ob. ob ''date'') (objects db)"
      and l: "store_loop c [] dbB = (Inr (), dbB')"
    from d have "length (objects dbB) = length (objects db)" by (rule map_eq_imp_length_eq)
    moreover from l have "dbB' = dbB" by simp
    ultimately show "objects dbB' = map2 (++) (objects dbB) (replicate (length (objects db)) Map.empty)"
      by (simp add: map2_empty)
  qed
next
  case (Cons idx rest)
  let ?d = "fst (daily_equity c ! idx)"
  show ?case
  proof (cases "?d < start_date c")
    case True
    with Cons.prems have "store_loop c rest db = (Inr (), db')" by simp
    from Cons.IH[OF this] obtain Ms where
      len: "length Ms = length (objects db)" and
      res: "objects db' = map2 (++) (objects db) Ms" and
      sim: "\<And>dbB dbB'. map (\<lambda>ob. ob ''date'') (objects dbB) = map (\<lambda>ob. ob ''date'') (objects db) \<Longrightarrow>
            store_loop c rest dbB = (Inr (), dbB') \<Longrightarrow> objects dbB' = map2 (++) (objects dbB) Ms"
      by blast
    show ?thesis
    proof (intro exI[of _ Ms] conjI allI impI)
      show "length Ms = length (objects db)" by (rule len)
      show "objects db' = map2 (++) (objects db) Ms" by (rule res)
      fix dbB dbB'
      assume dB: "map (\<lambda>ob. ob ''date'') (objects dbB) = map (\<lambda>ob. ob ''date'') (objects db)"
        and lB: "store_loop c (idx # rest) dbB = (Inr (), dbB')"
      from lB True have "store_loop c rest dbB = (Inr (), dbB')" by simp
      from sim[OF dB this] show "objects dbB' = map2 (++) (objects dbB) Ms" .
    qed
  next
    case False
    from store_loop_step[OF Cons.prems False] obtain i db1 cum where
      sel: "select_analytics ?d db = (Inr (Some i), db1)" and
      cum: "cumulative_return c idx = Inr cum" and
      rest: "store_loop c rest
        (db1\<lparr>objects := (objects db1)[i := setattrs (objects db1 ! i) (analytics_values c idx cum)]\<rparr>) =
        (Inr (), db')"
      by blast
    let ?K = "map_of (rev (analytics_values c idx cum))"
    note fr = select_analytics_frame[OF sel]
    from select_analytics_Some(1)[OF sel] have i: "i < length (objects db)" .
    let ?db2 = "db1\<lparr>objects := (objects db1)[i := setattrs (objects db1 ! i) (analytics_values c idx cum)]\<rparr>"
    from Cons.IH[OF rest] obtain Ms where
      len: "length Ms = length (objects ?db2)" and
      res: "objects db' = map2 (++) (objects ?db2) Ms" and
      sim: "\<And>dbB dbB'. map (\<lambda>ob. ob ''date'') (objects dbB) = map (\<lambda>ob. ob ''date'') (objects ?db2) \<Longrightarrow>
            store_loop c rest dbB = (Inr (), dbB') \<Longrightarrow> objects dbB' = map2 (++) (objects dbB) Ms"
      by blast
    have dates2: "map (\<lambda>ob. ob ''date'') (objects ?db2) = map (\<lambda>ob. ob ''date'') (objects db)"
      using fr(2) by (simp add: map_update_same setattrs_date)
    let ?Ms = "Ms[i := ?K ++ (Ms ! i)]"
    have l: "length ?Ms = length (objects db)" using len fr(2) by simp
    have o: "objects db' = map2 (++) (objects db) ?Ms"
    proof -
      have "objects ?db2 = (objects db)[i := objects db ! i ++ ?K]"
        using fr(2) by (simp add: setattrs_map_add)
      with res have "objects db' = map2 (++) ((objects db)[i := objects db ! i ++ ?K]) Ms"
        by (simp only:)
      also have "\<dots> = map2 (++) (objects db) ?Ms"
      proof (rule map2_update_add)
        show "length Ms = length (objects db)" using len fr(2) by simp
        show "i < length (objects db)" by (rule i)
      qed
      finally show ?thesis .
    qed
    have s: "objects dbB' = map2 (++) (objects dbB) ?Ms"
      if dB: "map (\<lambda>ob. ob ''date'') (objects dbB) = map (\<lambda>ob. ob ''date'') (objects db)"
        and lB: "store_loop c (idx # rest) dbB = (Inr (), dbB')" for dbB dbB'
    proof -
      from store_loop_step[OF lB False] obtain k dbB1 cum' where
        selB: "select_analytics ?d dbB = (Inr (Some k), dbB1)" and
        cum': "cumulative_return c idx = Inr cum'" and
        restB1: "store_loop c rest
          (dbB1\<lparr>objects := (objects dbB1)[k := setattrs (objects dbB1 ! k) (analytics_values c idx cum')]\<rparr>) =
          (Inr (), dbB')"
        by blast
      from cum cum' have "cum' = cum" by simp
      with restB1 have restB0: "store_loop c rest
          (dbB1\<lparr>objects := (objects dbB1)[k := setattrs (objects dbB1 ! k) (analytics_values c idx cum)]\<rparr>) =
          (Inr (), dbB')"
        by simp
      note frB = select_analytics_frame[OF selB]
      from select_analytics_agree[OF dB selB sel] have k: "k = i" by simp
      let ?dbB2 = "dbB1\<lparr>objects := (objects dbB1)[i := setattrs (objects dbB1 ! i) (analytics_values c idx cum)]\<rparr>"
      from restB0 k have restB: "store_loop c rest ?dbB2 = (Inr (), dbB')" by simp
      have "map (\<lambda>ob. ob ''date'') (objects ?dbB2) = map (\<lambda>ob. ob ''date'') (objects dbB)"
        using frB(2) by (simp add: map_update_same setattrs_date)
      with dB dates2 have "map (\<lambda>ob. ob ''date'') (objects ?dbB2) = map (\<lambda>ob. ob ''date'') (objects ?db2)"
        by simp
      from sim[OF this restB] have "objects dbB' = map2 (++) (objects ?dbB2) Ms" .
      moreover have "objects ?dbB2 = (objects dbB)[i := objects dbB ! i ++ ?K]"
        using frB(2) by (simp add: setattrs_map_add)
      ultimately have "objects dbB' = map2 (++) ((objects dbB)[i := objects dbB ! i ++ ?K]) Ms"
        by (simp only:)
      also have "\<dots> = map2 (++) (objects dbB) ?Ms"
      proof (rule map2_update_add)
        from dB have "length (objects dbB) = length (objects db)" by (rule map_eq_imp_length_eq)
        then show "length Ms = length (objects dbB)" using len fr(2) by simp
        from \<open>length (objects dbB) = length (objects db)\<close> i show "i < length (objects dbB)" by simp
      qed
      finally show ?thesis .
    qed
    show ?thesis
    proof (intro exI[of _ ?Ms] conjI allI impI)
      show "length ?Ms = length (objects db)" by (rule l)
      show "objects db' = map2 (++) (objects db) ?Ms" by (rule o)
      fix dbB dbB'
      assume "map (\<lambda>ob. ob ''date'') (objects dbB) = map (\<lambda>ob. ob ''date'') (objects db)"
        and "store_loop c (idx # rest) dbB = (Inr (), dbB')"
      then show "objects dbB' = map2 (++) (objects dbB) ?Ms" by (rule s)
    qed
  qed
qed


lemma select_equity_Inr:
  "select_equity t0 db = (Inr x, d1) \<Longrightarrow>
   x = sort_key fst (filter (\<lambda>row. t0 \<le> fst row) (equity_curve (stored db)))"
  using roundtrip_frame(1)[of db]
  by (auto simp: select_equity_def split: prod.splits sum.splits)

lemma select_instrument_Inr:
  "select_instrument symbol db = (Inr x, d1) \<Longrightarrow>
   scalar_one_or_none (map snd (filter (\<lambda>row. fst row = symbol) (instruments (stored db)))) = Inr x"
  using roundtrip_frame(1)[of db]
  by (auto simp: select_instrument_def split: prod.splits sum.splits)

lemma select_ohlc_Inr:
  "select_ohlc k d0 db = (Inr x, d1) \<Longrightarrow>
   x = sort_key fst (map snd (filter (\<lambda>row. fst row = k \<and> d0 \<le> fst (snd row)) (ohlc_daily (stored db))))"
  using roundtrip_frame(1)[of db]
  by (auto simp: select_ohlc_def split: prod.splits sum.splits)

lemma get_benchmark_returns_agree:
  assumes a: "get_benchmark_returns symbol d dbA = (Inr x, a2)"
    and b: "get_benchmark_returns symbol d dbB = (Inr y, b2)"
    and i: "instruments (stored dbA) = instruments (stored dbB)"
    and o: "ohlc_daily (stored dbA) = ohlc_daily (stored dbB)"
  shows "x = y"
proof -
  obtain ra a1 where sa: "select_instrument symbol dbA = (ra, a1)" by (cases "select_instrument symbol dbA")
  obtain rb b1 where sb: "select_instrument symbol dbB = (rb, b1)" by (cases "select_instrument symbol dbB")
  from a sa obtain fa where ra: "ra = Inr fa" by (cases ra) (auto simp: get_benchmark_returns_def)
  from b sb obtain fb where rb: "rb = Inr fb" by (cases rb) (auto simp: get_benchmark_returns_def)
  from select_instrument_Inr[OF sa[unfolded ra]] select_instrument_Inr[OF sb[unfolded rb]] i
  have same: "fa = fb" by simp
  note fra = select_instrument_frame(1)[OF sa] and frb = select_instrument_frame(1)[OF sb]
  show ?thesis
  proof (cases fa)
    case None
    with a b sa sb ra rb same show ?thesis by (simp add: get_benchmark_returns_def)
  next
    case (Some k)
    obtain qa a3 where oa: "select_ohlc k d a1 = (qa, a3)" by (cases "select_ohlc k d a1")
    obtain qb b3 where ob: "select_ohlc k d b1 = (qb, b3)" by (cases "select_ohlc k d b1")
    from a sa ra Some oa obtain xa where qa: "qa = Inr xa"
      by (cases qa) (auto simp: get_benchmark_returns_def)
    from b sb rb same Some ob obtain xb where qb: "qb = Inr xb"
      by (cases qb) (auto simp: get_benchmark_returns_def)
    from select_ohlc_Inr[OF oa[unfolded qa]] select_ohlc_Inr[OF ob[unfolded qb]] fra frb o
    have "xa = xb" by simp
    with a b sa sb ra rb same Some oa ob qa qb show ?thesis
      by (auto simp: get_benchmark_returns_def split: if_splits sum.splits)
  qed
qed

lemma pass_structure:
  assumes "recompute_analytics_from_date L start db = (r, db')"
  shows "(\<exists>e. r = Inl e \<and> stored db' = stored db)
     \<or> (\<exists>data d1. r = Inr () \<and> stored db' = stored db \<and>
           select_equity (combine_min start) db = (Inr data, d1) \<and>
           (data = [] \<or> length (resample_last data) < 2))
     \<or> (\<exists>data d1 spy d2 d3. r = Inr () \<and>
           select_equity (combine_min start) db = (Inr data, d1) \<and>
           \<not> (data = [] \<or> length (resample_last data) < 2) \<and>
           get_benchmark_returns ''SPY'' start d1 = (Inr spy, d2) \<and>
           store_loop (make_ctx L start (resample_last data) spy)
             [0 ..< length (resample_last data)] d2 = (Inr (), d3) \<and>
           stored d1 = stored db \<and> stored d2 = stored db \<and> objects d2 = objects db \<and>
           stored db' = (stored db)\<lparr>analytics_daily := map persist (objects d3)\<rparr>)"
proof -
  obtain r1 d1 where a: "select_equity (combine_min start) db = (r1, d1)"
    by (cases "select_equity (combine_min start) db")
  note f1 = select_equity_frame[OF a]
  show ?thesis
  proof (cases r1)
    case (Inl e)
    with assms a f1 show ?thesis by (auto simp: recompute_analytics_from_date_def)
  next
    case (Inr data)
    show ?thesis
    proof (cases "data = [] \<or> length (resample_last data) < 2")
      case True
      with assms a f1 Inr have "r = Inr () \<and> stored db' = stored db"
        by (auto simp: recompute_analytics_from_date_def logger_def Let_def split: if_splits)
      with a Inr True show ?thesis by blast
    next
      case False
      obtain r2 d2 where b: "get_benchmark_returns ''SPY'' start d1 = (r2, d2)"
        by (cases "get_benchmark_returns ''SPY'' start d1")
      note f2 = get_benchmark_returns_frame[OF b]
      show ?thesis
      proof (cases r2)
        case (Inl e)
        with assms a f1 Inr False b f2 show ?thesis
          by (auto simp: recompute_analytics_from_date_def Let_def)
      next
        case spy: (Inr spy)
        let ?c = "make_ctx L start (resample_last data) spy"
        obtain r3 d3 where c: "store_loop ?c [0 ..< length (resample_last data)] d2 = (r3, d3)"
          by (cases "store_loop ?c [0 ..< length (resample_last data)] d2")
        note f3 = store_loop_frame[OF c]
        show ?thesis
        proof (cases r3)
          case (Inl e)
          with assms a f1 Inr False b f2 spy c f3 show ?thesis
            by (auto simp: recompute_analytics_from_date_def Let_def)
        next
          case loop: (Inr u)
          obtain r4 d4 where d: "commit d3 = (r4, d4)" by (cases "commit d3")
          from commit_result[OF d] show ?thesis
          proof
            assume "\<exists>e. r4 = Inl e \<and> stored d4 = stored d3 \<and> commits d4 = commits d3 \<and>
              objects d4 = objects d3 \<and> logged d4 = logged d3"
            with assms a f1 Inr False b f2 spy c f3 loop d show ?thesis
              by (auto simp: recompute_analytics_from_date_def Let_def)
          next
            assume ok: "r4 = Inr () \<and> stored d4 = (stored d3)\<lparr>analytics_daily := map persist (objects d3)\<rparr> \<and>
              commits d4 = Suc (commits d3) \<and> objects d4 = objects d3 \<and> logged d4 = logged d3"
            with assms a f1 Inr False b f2 spy c f3 loop d
            have "r = Inr () \<and> stored db' = (stored db)\<lparr>analytics_daily := map persist (objects d3)\<rparr>"
              by (auto simp: recompute_analytics_from_date_def Let_def logger_def)
            moreover from c loop have "store_loop ?c [0 ..< length (resample_last data)] d2 = (Inr (), d3)"
              by simp
            ultimately have "r = Inr () \<and>
                select_equity (combine_min start) db = (Inr data, d1) \<and>
                \<not> (data = [] \<or> length (resample_last data) < 2) \<and>
                get_benchmark_returns ''SPY'' start d1 = (Inr spy, d2) \<and>
                store_loop (make_ctx L start (resample_last data) spy)
                  [0 ..< length (resample_last data)] d2 = (Inr (), d3) \<and>
                stored d1 = stored db \<and> stored d2 = stored db \<and> objects d2 = objects db \<and>
                stored db' = (stored db)\<lparr>analytics_daily := map persist (objects d3)\<rparr>"
              using a Inr False b spy f1(1,2) f2(1,2) by simp
            then show ?thesis by blast
          qed
        qed
      qed
    qed
  qed
qed


lemma persist_map2_absorb:
  assumes "length Ms = length A"
  shows "map persist (map2 (++) (map persist (map2 (++) A Ms)) Ms) = map persist (map2 (++) A Ms)"
proof (rule nth_equalityI)
  show "length (map persist (map2 (++) (map persist (map2 (++) A Ms)) Ms)) =
        length (map persist (map2 (++) A Ms))"
    using assms by simp
next
  fix j assume "j < length (map persist (map2 (++) (map persist (map2 (++) A Ms)) Ms))"
  with assms show "map persist (map2 (++) (map persist (map2 (++) A Ms)) Ms) ! j =
        map persist (map2 (++) A Ms) ! j"
    by (simp add: persist_absorb)
qed

lemma second_pass_same:
  assumes run1: "recompute_analytics_from_date L start dbA = (Inr (), dbA')"
    and fresh: "objects dbB = analytics_daily (stored dbA')" "stored dbB = stored dbA'"
    and run2: "recompute_analytics_from_date L start dbB = (r, dbB')"
  shows "stored dbB' = stored dbA'"
proof -
  from pass_structure[OF run1]
  consider
    (early) data d1 where "stored dbA' = stored dbA"
      "select_equity (combine_min start) dbA = (Inr data, d1)"
      "data = [] \<or> length (resample_last data) < 2"
  | (committed) data d1 spy d2 d3 where
      "select_equity (combine_min start) dbA = (Inr data, d1)"
      "\<not> (data = [] \<or> length (resample_last data) < 2)"
      "get_benchmark_returns ''SPY'' start d1 = (Inr spy, d2)"
      "store_loop (make_ctx L start (resample_last data) spy)
         [0 ..< length (resample_last data)] d2 = (Inr (), d3)"
      "stored d1 = stored dbA" "stored d2 = stored dbA" "objects d2 = objects dbA"
      "stored dbA' = (stored dbA)\<lparr>analytics_daily := map persist (objects d3)\<rparr>"
    by blast
  then show ?thesis
  proof cases
    case early
    from pass_structure[OF run2]
    consider
      (same) "stored dbB' = stored dbB"
    | (committed2) data2 e1 where
        "select_equity (combine_min start) dbB = (Inr data2, e1)"
        "\<not> (data2 = [] \<or> length (resample_last data2) < 2)"
      by blast
    then show ?thesis
    proof cases
      case same
      with fresh show ?thesis by simp
    next
      case committed2
      from select_equity_Inr[OF committed2(1)] select_equity_Inr[OF early(2)] fresh(2) early(1)
      have "data2 = data" by simp
      with committed2(2) early(3) show ?thesis by simp
    qed
  next
    case committed
    let ?daily = "resample_last data"
    let ?c = "make_ctx L start ?daily spy"
    from store_loop_pointwise[OF committed(4)] obtain Ms where
      len: "length Ms = length (objects d2)" and
      res: "objects d3 = map2 (++) (objects d2) Ms" and
      sim: "\<And>dbX dbX'. map (\<lambda>ob. ob ''date'') (objects dbX) = map (\<lambda>ob. ob ''date'') (objects d2) \<Longrightarrow>
            store_loop ?c [0 ..< length ?daily] dbX = (Inr (), dbX') \<Longrightarrow>
            objects dbX' = map2 (++) (objects dbX) Ms"
      by blast
    from pass_structure[OF run2]
    consider
      (same) "stored dbB' = stored dbB"
    | (committed2) data2 e1 spy2 e2 e3 where
        "select_equity (combine_min start) dbB = (Inr data2, e1)"
        "get_benchmark_returns ''SPY'' start e1 = (Inr spy2, e2)"
        "store_loop (make_ctx L start (resample_last data2) spy2)
           [0 ..< length (resample_last data2)] e2 = (Inr (), e3)"
        "stored e1 = stored dbB" "stored e2 = stored dbB" "objects e2 = objects dbB"
        "stored dbB' = (stored dbB)\<lparr>analytics_daily := map persist (objects e3)\<rparr>"
      by blast
    then show ?thesis
    proof cases
      case same
      with fresh show ?thesis by simp
    next
      case committed2
      from select_equity_Inr[OF committed2(1)] select_equity_Inr[OF committed(1)] fresh(2) committed(8)
      have d: "data2 = data" by simp
      have "spy2 = spy"
        by (rule get_benchmark_returns_agree[OF committed2(2) committed(3)])
          (simp_all add: committed2(4) committed(5) fresh(2) committed(8))
      with d committed2(3) have loop2: "store_loop ?c [0 ..< length ?daily] e2 = (Inr (), e3)" by simp
      have "map (\<lambda>ob. ob ''date'') (objects e2) = map (\<lambda>ob. ob ''date'') (map persist (objects d3))"
        using committed2(6) fresh(1) committed(8) by simp
      also have "\<dots> = map (\<lambda>ob. ob ''date'') (objects d3)"
        by (simp add: persist_date)
      also have "\<dots> = map (\<lambda>ob. ob ''date'') (objects d2)"
        using store_loop_frame[OF committed(4)] by simp
      finally have "objects e3 = map2 (++) (objects e2) Ms" using loop2 by (rule sim)
      moreover have "objects e2 = map persist (map2 (++) (objects d2) Ms)"
        using committed2(6) fresh(1) committed(8) res by simp
      ultimately have "map persist (objects e3) = map persist (map2 (++) (objects d2) Ms)"
        using persist_map2_absorb[OF len] by simp
      with res have "map persist (objects e3) = analytics_daily (stored dbA')"
        using committed(8) by simp
      with committed2(7) fresh(2) show ?thesis by simp
    qed
  qed
qed

text \<open>
  C3.  Running the pass from a date twice in succession, with the equity and benchmark
  data unchanged between the runs, leaves the analytics store after the second run as
  it was after the first.  When the first run returns, this holds whatever happens to
  the connection during the second run (a second run that fails rolls back to the state
  the first one left); with a connection that never fails it holds without condition.
\<close>

theorem recompute_idempotent:
  "(recompute_analytics_from_date L start (SessionLocal st b1 lg1) = (Inr (), db1) \<longrightarrow>
      stored (snd (recompute_analytics_from_date L start (SessionLocal (stored db1) b2 lg2))) =
      stored db1)
   \<and> stored (snd (recompute_analytics_from_date L start
        (SessionLocal (stored (snd (recompute_analytics_from_date L start (SessionLocal st None lg))))
           None lg))) =
     stored (snd (recompute_analytics_from_date L start (SessionLocal st None lg)))"
proof -
  have gen: "stored (snd (recompute_analytics_from_date L start (SessionLocal (stored dbX) b lg))) = stored dbX"
    if "recompute_analytics_from_date L start (SessionLocal st b' lg') = (Inr (), dbX)" for dbX b lg b' lg'
  proof -
    obtain r dbY where run2: "recompute_analytics_from_date L start (SessionLocal (stored dbX) b lg) = (r, dbY)"
      by (cases "recompute_analytics_from_date L start (SessionLocal (stored dbX) b lg)")
    have "stored dbY = stored dbX"
      by (rule second_pass_same[OF that _ _ run2]) (simp_all add: SessionLocal_def)
    with run2 show ?thesis by simp
  qed
  have a: "recompute_analytics_from_date L start (SessionLocal st b1 lg1) = (Inr (), db1) \<longrightarrow>
      stored (snd (recompute_analytics_from_date L start (SessionLocal (stored db1) b2 lg2))) =
      stored db1"
    using gen by blast
  let ?run1 = "recompute_analytics_from_date L start (SessionLocal st None lg)"
  have b: "stored (snd (recompute_analytics_from_date L start (SessionLocal (stored (snd ?run1)) None lg))) =
     stored (snd ?run1)"
  proof (cases "fst ?run1")
    case (Inr u)
    then have "?run1 = (Inr (), snd ?run1)" by (simp add: prod_eq_iff)
    from gen[OF this] show ?thesis .
  next
    case (Inl e)
    then have r1: "?run1 = (Inl e, snd ?run1)" by (simp add: prod_eq_iff)
    from pass_structure[OF r1] have "stored (snd ?run1) = st" by (auto simp: SessionLocal_def)
    then show ?thesis by simp
  qed
  from a b show ?thesis by (intro conjI)
qed

theorem recompute_idempotent_witness:
  "fst (recompute_analytics_from_date spec_lib 1 (SessionLocal full_store None [])) = Inr ()
   \<and> (analytics_daily full_store ! 0) ''volatility_20d'' = Some (Num 9)
   \<and> (analytics_daily
        (stored (snd (recompute_analytics_from_date spec_lib 1 (SessionLocal full_store None []))))
        ! 0) ''volatility_20d'' = Some PyNone
   \<and> stored (snd (recompute_analytics_from_date spec_lib 1
        (SessionLocal
           (stored (snd (recompute_analytics_from_date spec_lib 1 (SessionLocal full_store None []))))
           None []))) =
     stored (snd (recompute_analytics_from_date spec_lib 1 (SessionLocal full_store None [])))"
proof -
  let ?run1 = "recompute_analytics_from_date spec_lib 1 (SessionLocal full_store None [])"
  let ?c = "make_ctx spec_lib 1 [(1, 100), (2, 110)] None"
  have ok: "fst ?run1 = Inr ()"
    by (simp add: eval_pass full_store_def fresh_store_def)
  have old: "(analytics_daily full_store ! 0) ''volatility_20d'' = Some (Num 9)"
    by (simp add: full_store_def stale_row_def)
  have rows: "analytics_daily (stored (snd ?run1)) =
      [persist (setattrs (stale_row 1) (analytics_values ?c 0 (Num 0))),
       persist (setattrs (stale_row 2) (analytics_values ?c 1 (Num (1 / 10))))]"
    by (simp add: eval_pass full_store_def fresh_store_def)
  have vol: "float_or_none (iloc_or_none (rolling_vol ?c) 0) = PyNone"
    by (simp add: make_ctx_def Let_def spec_lib_def on_dates_def to_series_def dailyReturns_def
        rollingVolatility_def rolling_def last_n_def iloc_or_none_def float_or_none_def)
  have new: "(analytics_daily (stored (snd ?run1)) ! 0) ''volatility_20d'' = Some PyNone"
    by (simp add: rows persist_def AnalyticsDaily_columns_def setattrs_vol vol)
  from ok have "?run1 = (Inr (), snd ?run1)" by (simp add: prod_eq_iff)
  with recompute_idempotent[where L = spec_lib and start = 1 and st = full_store and ?b1.0 = None
      and ?lg1.0 = "[]" and ?db1.0 = "snd ?run1" and ?b2.0 = None and ?lg2.0 = "[]"]
  have same: "stored (snd (recompute_analytics_from_date spec_lib 1
        (SessionLocal (stored (snd ?run1)) None []))) = stored (snd ?run1)"
    by blast
  from ok old new same show ?thesis by (intro conjI)
qed

subsection \<open>Retries of the event task\<close>

lemma event_failure:
  assumes run: "recompute_from_event L parse et iid t retries db = (out, db')"
    and bad: "out \<noteq> Returned"
  shows "\<exists>e. out = task_retry 3 retries e (2 ^ retries) \<and> stored db' = stored db \<and>
             commits db' = commits db \<and>
             LogError ''Error processing event'' e \<in> set (logged db')"
proof (cases "parse (replace_Z t)")
  case None
  with run show ?thesis
    by (auto simp: recompute_from_event_def Let_def rollback_def logger_def)
next
  case (Some event_dt)
  let ?db1 = "logger (LogInfo ''Processing event'') db"
  obtain r d2 where p: "recompute_analytics_from_date L (date_of event_dt) ?db1 = (r, d2)"
    by (cases "recompute_analytics_from_date L (date_of event_dt) ?db1")
  have base: "stored ?db1 = stored db" "commits ?db1 = commits db"
    by (simp_all add: logger_def)
  show ?thesis
  proof (cases r)
    case (Inl e)
    with pass_cases[OF p] base have "stored d2 = stored db" "commits d2 = commits db" by auto
    with run Some p Inl show ?thesis
      by (auto simp: recompute_from_event_def Let_def rollback_def logger_def)
  next
    case (Inr u)
    with run Some p bad show ?thesis
      by (auto simp: recompute_from_event_def Let_def logger_def)
  qed
qed


lemma worker_returned:
  "task retries (SessionLocal st (env retries) lg) = (Returned, db) \<Longrightarrow>
   celery_worker task m env retries st lg =
     \<lparr>executions = 1, delays = [], final = Returned, final_store = stored db, final_log = logged db\<rparr>"
  by (subst celery_worker.simps) simp





lemma event_down:
  assumes "budget db = Some 0" "parse (replace_Z t) = Some dt"
  shows "fst (recompute_from_event L parse et iid t retries db) =
         task_retry 3 retries OperationalError (2 ^ retries)"
  using assms
  by (simp add: recompute_from_event_def recompute_analytics_from_date_def select_equity_def
      roundtrip_def logger_def Let_def)










lemma parse_day1_Z: "parse_day1 (replace_Z ''1970-01-02T00:00:00Z'') = Some 86400"
  by (simp add: parse_day1_def replace_Z_def)





subsection \<open>The scheduled tasks\<close>

lemma select_earliest_frame:
  assumes "select_earliest db = (r, db1)"
  shows "stored db1 = stored db" "objects db1 = objects db" "commits db1 = commits db"
    "logged db1 = logged db"
  using assms roundtrip_frame[of db]
  by (auto simp: select_earliest_def split: prod.splits sum.splits)

lemma recompute_all_returns: "fst (recompute_all_analytics L db) = Returned"
  by (simp add: recompute_all_analytics_def Let_def split: prod.splits sum.splits option.splits)

lemma update_benchmarks_returns:
  "fst (update_benchmarks_daily fetch benchmarks today db) = Returned"
  by (simp add: update_benchmarks_daily_def Let_def split: prod.splits sum.splits)

lemma worker_once:
  assumes "\<And>k db. fst (task k db) = Returned"
  shows "executions (celery_worker task m env retries st lg) = 1"
    "delays (celery_worker task m env retries st lg) = []"
    "final (celery_worker task m env retries st lg) = Returned"
proof -
  let ?s = "SessionLocal st (env retries) lg"
  from assms[of retries ?s] have "task retries ?s = (Returned, snd (task retries ?s))"
    by (simp add: prod_eq_iff)
  from worker_returned[where task = task and env = env and retries = retries and st = st
      and lg = lg and m = m, OF this]
  show "executions (celery_worker task m env retries st lg) = 1"
    "delays (celery_worker task m env retries st lg) = []"
    "final (celery_worker task m env retries st lg) = Returned"
    by simp_all
qed

text \<open>
  C10.  The two scheduled tasks \<open>recompute_all_analytics\<close> and
  \<open>update_benchmarks_daily\<close> return normally whatever happens in their body.  When the
  query for the earliest equity time, the recomputation pass or the fetch of the
  benchmarks raises, the task logs the error and rolls the session back; after a failed
  pass the store is as it was.  So the worker executes such a task once, with no
  countdown and with the outcome that it returned, whatever its number of allowed
  retries and whatever the connection: a failure shows in the log only.  The event task
  is the one that asks for a retry: an execution of \<open>recompute_from_event\<close> that does
  not return, with fewer than 3 retries behind it, ends with \<open>Retry\<close>.
\<close>

theorem scheduled_tasks_swallow_errors:
  "fst (recompute_all_analytics L db) = Returned
   \<and> (\<forall>e db2. select_earliest (logger (LogInfo ''Starting full analytics recomputation'') db) =
          (Inl e, db2) \<longrightarrow>
        snd (recompute_all_analytics L db) =
          rollback (logger (LogError ''Error in full recomputation'' e) db2) \<and>
        stored (snd (recompute_all_analytics L db)) = stored db)
   \<and> (\<forall>earliest db2 e db3.
        select_earliest (logger (LogInfo ''Starting full analytics recomputation'') db) =
          (Inr (Some earliest), db2) \<longrightarrow>
        recompute_analytics_from_date L (date_of earliest) db2 = (Inl e, db3) \<longrightarrow>
        snd (recompute_all_analytics L db) =
          rollback (logger (LogError ''Error in full recomputation'' e) db3) \<and>
        stored (snd (recompute_all_analytics L db)) = stored db \<and>
        objects (snd (recompute_all_analytics L db)) = analytics_daily (stored db) \<and>
        commits (snd (recompute_all_analytics L db)) = commits db)
   \<and> fst (update_benchmarks_daily fetch benchmarks today db) = Returned
   \<and> (\<forall>e db2. fetch benchmarks (today - 1) (today - 1)
                 (logger (LogInfo ''Updating benchmarks'') db) = (Inl e, db2) \<longrightarrow>
        snd (update_benchmarks_daily fetch benchmarks today db) =
          rollback (logger (LogError ''Error updating benchmarks'' e) db2))
   \<and> executions (celery_worker (\<lambda>k. recompute_all_analytics L) m env retries st lg) = 1
   \<and> delays (celery_worker (\<lambda>k. recompute_all_analytics L) m env retries st lg) = []
   \<and> final (celery_worker (\<lambda>k. recompute_all_analytics L) m env retries st lg) = Returned
   \<and> executions (celery_worker (\<lambda>k. update_benchmarks_daily fetch benchmarks today)
         m env retries st lg) = 1
   \<and> delays (celery_worker (\<lambda>k. update_benchmarks_daily fetch benchmarks today)
         m env retries st lg) = []
   \<and> final (celery_worker (\<lambda>k. update_benchmarks_daily fetch benchmarks today)
         m env retries st lg) = Returned
   \<and> (fst (recompute_from_event L parse et iid t retries db) \<noteq> Returned \<longrightarrow> retries < 3 \<longrightarrow>
        (\<exists>e. fst (recompute_from_event L parse et iid t retries db) = Retry (2 ^ retries) e))"
proof -
  let ?db1 = "logger (LogInfo ''Starting full analytics recomputation'') db"
  have base: "stored ?db1 = stored db" "commits ?db1 = commits db"
    by (simp_all add: logger_def)
  have a: "fst (recompute_all_analytics L db) = Returned" by (rule recompute_all_returns)
  have b: "\<forall>e db2. select_earliest ?db1 = (Inl e, db2) \<longrightarrow>
        snd (recompute_all_analytics L db) =
          rollback (logger (LogError ''Error in full recomputation'' e) db2) \<and>
        stored (snd (recompute_all_analytics L db)) = stored db"
  proof (intro allI impI)
    fix e db2
    assume s: "select_earliest ?db1 = (Inl e, db2)"
    from select_earliest_frame(1)[OF s] base have "stored db2 = stored db" by simp
    with s show "snd (recompute_all_analytics L db) =
          rollback (logger (LogError ''Error in full recomputation'' e) db2) \<and>
        stored (snd (recompute_all_analytics L db)) = stored db"
      by (simp add: recompute_all_analytics_def Let_def rollback_def logger_def)
  qed
  have c: "\<forall>earliest db2 e db3.
        select_earliest ?db1 = (Inr (Some earliest), db2) \<longrightarrow>
        recompute_analytics_from_date L (date_of earliest) db2 = (Inl e, db3) \<longrightarrow>
        snd (recompute_all_analytics L db) =
          rollback (logger (LogError ''Error in full recomputation'' e) db3) \<and>
        stored (snd (recompute_all_analytics L db)) = stored db \<and>
        objects (snd (recompute_all_analytics L db)) = analytics_daily (stored db) \<and>
        commits (snd (recompute_all_analytics L db)) = commits db"
  proof (intro allI impI)
    fix earliest db2 e db3
    assume s: "select_earliest ?db1 = (Inr (Some earliest), db2)"
      and p: "recompute_analytics_from_date L (date_of earliest) db2 = (Inl e, db3)"
    from select_earliest_frame[OF s] base
    have f2: "stored db2 = stored db" "commits db2 = commits db" by simp_all
    from pass_cases[OF p] have "stored db3 = stored db2" "commits db3 = commits db2" by auto
    with f2 have f3: "stored db3 = stored db" "commits db3 = commits db" by simp_all
    from s p have r: "snd (recompute_all_analytics L db) =
          rollback (logger (LogError ''Error in full recomputation'' e) db3)"
      by (simp add: recompute_all_analytics_def Let_def)
    show "snd (recompute_all_analytics L db) =
          rollback (logger (LogError ''Error in full recomputation'' e) db3) \<and>
        stored (snd (recompute_all_analytics L db)) = stored db \<and>
        objects (snd (recompute_all_analytics L db)) = analytics_daily (stored db) \<and>
        commits (snd (recompute_all_analytics L db)) = commits db"
      unfolding r using f3 by (simp add: rollback_def logger_def)
  qed
  have d: "fst (update_benchmarks_daily fetch benchmarks today db) = Returned"
    by (rule update_benchmarks_returns)
  have e: "\<forall>e db2. fetch benchmarks (today - 1) (today - 1)
                 (logger (LogInfo ''Updating benchmarks'') db) = (Inl e, db2) \<longrightarrow>
        snd (update_benchmarks_daily fetch benchmarks today db) =
          rollback (logger (LogError ''Error updating benchmarks'' e) db2)"
    by (simp add: update_benchmarks_daily_def Let_def)
  note f = worker_once[where task = "\<lambda>k. recompute_all_analytics L" and m = m and env = env
      and retries = retries and st = st and lg = lg, OF recompute_all_returns]
  note g = worker_once[where task = "\<lambda>k. update_benchmarks_daily fetch benchmarks today"
      and m = m and env = env and retries = retries and st = st and lg = lg,
      OF update_benchmarks_returns]
  have h: "fst (recompute_from_event L parse et iid t retries db) \<noteq> Returned \<longrightarrow> retries < 3 \<longrightarrow>
        (\<exists>e. fst (recompute_from_event L parse et iid t retries db) = Retry (2 ^ retries) e)"
  proof (intro impI)
    assume bad: "fst (recompute_from_event L parse et iid t retries db) \<noteq> Returned"
      and lt: "retries < 3"
    have "recompute_from_event L parse et iid t retries db =
        (fst (recompute_from_event L parse et iid t retries db),
         snd (recompute_from_event L parse et iid t retries db))" by simp
    from event_failure[OF this bad] lt
    show "\<exists>e. fst (recompute_from_event L parse et iid t retries db) = Retry (2 ^ retries) e"
      by (auto simp: task_retry_def)
  qed
  from a b c d e f g h show ?thesis by (intro conjI)
qed

theorem scheduled_tasks_swallow_errors_witness:
  "select_earliest (logger (LogInfo ''Starting full analytics recomputation'')
       (SessionLocal full_store (Some 0) [])) =
     (Inl OperationalError,
      logger (LogInfo ''Starting full analytics recomputation'')
        (SessionLocal full_store (Some 0) []))
   \<and> recompute_all_analytics spec_lib (SessionLocal full_store (Some 0) []) =
       (Returned,
        rollback (logger (LogError ''Error in full recomputation'' OperationalError)
          (logger (LogInfo ''Starting full analytics recomputation'')
            (SessionLocal full_store (Some 0) []))))
   \<and> select_earliest (logger (LogInfo ''Starting full analytics recomputation'')
       (SessionLocal zero_store None [])) =
     (Inr (Some (1 * 86400 + 3600)),
      logger (LogInfo ''Starting full analytics recomputation'') (SessionLocal zero_store None []))
   \<and> fst (recompute_analytics_from_date spec_lib (date_of (1 * 86400 + 3600))
       (logger (LogInfo ''Starting full analytics recomputation'')
          (SessionLocal zero_store None []))) = Inl DecimalInvalidOperation
   \<and> fst (recompute_all_analytics spec_lib (SessionLocal zero_store None [])) = Returned
   \<and> last (logged (snd (recompute_all_analytics spec_lib (SessionLocal zero_store None [])))) =
       LogError ''Error in full recomputation'' DecimalInvalidOperation
   \<and> stored (snd (recompute_all_analytics spec_lib (SessionLocal zero_store None []))) = zero_store
   \<and> update_benchmarks_daily (\<lambda>symbols start_date end_date db. (Inl FetchError, db))
        [''SPY''] 10 (SessionLocal full_store None []) =
       (Returned,
        rollback (logger (LogError ''Error updating benchmarks'' FetchError)
          (logger (LogInfo ''Updating benchmarks'') (SessionLocal full_store None []))))
   \<and> fst (recompute_from_event spec_lib parse_day1 ''equity'' None ''1970-01-02T00:00:00Z'' 0
          (SessionLocal full_store (Some 0) [])) = Retry 1 OperationalError"
proof -
  let ?start = "LogInfo ''Starting full analytics recomputation''"
  let ?dn = "SessionLocal full_store (Some 0) []"
  let ?z = "SessionLocal zero_store None []"
  let ?fetch = "\<lambda>(symbols :: string list) (start_date :: int) (end_date :: int) (db :: session).
      (Inl FetchError :: error + (string \<times> nat) list, db)"
  let ?T = "''1970-01-02T00:00:00Z''"
  have s1: "select_earliest (logger ?start ?dn) = (Inl OperationalError, logger ?start ?dn)"
    by (simp add: select_earliest_def roundtrip_def logger_def SessionLocal_def)
  note t1 = scheduled_tasks_swallow_errors[where L = spec_lib and db = ?dn and fetch = ?fetch
      and benchmarks = "[''SPY'']" and today = 10 and m = 3 and env = down and retries = 0
      and st = full_store and lg = "[]" and parse = parse_day1 and et = "''equity''"
      and iid = None and t = ?T]
  from t1[THEN conjunct1] t1[THEN conjunct2, THEN conjunct1, rule_format, OF s1]
  have r1: "recompute_all_analytics spec_lib ?dn =
       (Returned, rollback (logger (LogError ''Error in full recomputation'' OperationalError)
          (logger ?start ?dn)))"
    by (simp add: prod_eq_iff)
  have s2: "select_earliest (logger ?start ?z) = (Inr (Some (1 * 86400 + 3600)), logger ?start ?z)"
    by (simp add: select_earliest_def roundtrip_def logger_def SessionLocal_def zero_store_def)
  obtain db3 where p: "recompute_analytics_from_date spec_lib (date_of (1 * 86400 + 3600))
      (logger ?start ?z) = (Inl DecimalInvalidOperation, db3)"
    by (simp add: eval_pass zero_store_def)
  then have p1: "fst (recompute_analytics_from_date spec_lib (date_of (1 * 86400 + 3600))
      (logger ?start ?z)) = Inl DecimalInvalidOperation"
    by simp
  note t2 = scheduled_tasks_swallow_errors[where L = spec_lib and db = ?z and fetch = ?fetch
      and benchmarks = "[''SPY'']" and today = 10 and m = 3 and env = down and retries = 0
      and st = full_store and lg = "[]" and parse = parse_day1 and et = "''equity''"
      and iid = None and t = ?T]
  note c2 = t2[THEN conjunct2, THEN conjunct2, THEN conjunct1, rule_format, OF s2 p]
  from c2[THEN conjunct1] have l2: "last (logged (snd (recompute_all_analytics spec_lib ?z))) =
       LogError ''Error in full recomputation'' DecimalInvalidOperation"
    by (simp add: rollback_def logger_def)
  from c2[THEN conjunct2, THEN conjunct1]
  have st2: "stored (snd (recompute_all_analytics spec_lib ?z)) = zero_store"
    by (simp add: SessionLocal_def)
  note t3 = scheduled_tasks_swallow_errors[where L = spec_lib
      and db = "SessionLocal full_store None []" and fetch = ?fetch
      and benchmarks = "[''SPY'']" and today = 10 and m = 3 and env = down and retries = 0
      and st = full_store and lg = "[]" and parse = parse_day1 and et = "''equity''"
      and iid = None and t = ?T]
  have fe: "?fetch [''SPY''] (10 - 1) (10 - 1)
      (logger (LogInfo ''Updating benchmarks'') (SessionLocal full_store None [])) =
      (Inl FetchError, logger (LogInfo ''Updating benchmarks'') (SessionLocal full_store None []))"
    by simp
  from t3[THEN conjunct2, THEN conjunct2, THEN conjunct2, THEN conjunct1]
    t3[THEN conjunct2, THEN conjunct2, THEN conjunct2, THEN conjunct2, THEN conjunct1,
      rule_format, OF fe]
  have u: "update_benchmarks_daily ?fetch [''SPY''] 10 (SessionLocal full_store None []) =
       (Returned,
        rollback (logger (LogError ''Error updating benchmarks'' FetchError)
          (logger (LogInfo ''Updating benchmarks'') (SessionLocal full_store None []))))"
    by (simp add: prod_eq_iff)
  have b0: "budget ?dn = Some 0" by (simp add: SessionLocal_def)
  from event_down[where parse = parse_day1 and t = ?T and dt = 86400 and L = spec_lib
      and et = "''equity''" and iid = None and retries = 0 and db = ?dn, OF b0 parse_day1_Z]
  have ev: "fst (recompute_from_event spec_lib parse_day1 ''equity'' None ?T 0 ?dn) =
      Retry 1 OperationalError"
    by (simp add: task_retry_def)
  from s1 r1 s2 p1 t2[THEN conjunct1] l2 st2 u ev show ?thesis by (intro conjI)
qed

subsection \<open>The baseline of the cumulative return\<close>

lemma setattrs_cum:
  "setattrs ob (analytics_values c idx cum) ''cumulative_return'' = Some cum"
  by (simp add: setattrs_def analytics_values_def values_before_def values_after_def)

lemma history_from_2:
  "objects (snd (recompute_analytics_from_date L 2 (SessionLocal history_store None []))) =
     [stale_row 1,
      setattrs (stale_row 2) (analytics_values (make_ctx L 2 [(2, 110), (3, 121)] None) 0 (Num 0)),
      setattrs (stale_row 3)
        (analytics_values (make_ctx L 2 [(2, 110), (3, 121)] None) 1 (Num (1 / 10)))]"
  by (simp add: eval_pass history_store_def)

lemma history_from_1:
  "objects (snd (recompute_analytics_from_date L 1 (SessionLocal history_store None []))) =
     [setattrs (stale_row 1)
        (analytics_values (make_ctx L 1 [(1, 100), (2, 110), (3, 121)] None) 0 (Num 0)),
      setattrs (stale_row 2)
        (analytics_values (make_ctx L 1 [(1, 100), (2, 110), (3, 121)] None) 1 (Num (1 / 10))),
      setattrs (stale_row 3)
        (analytics_values (make_ctx L 1 [(1, 100), (2, 110), (3, 121)] None) 2 (Num (21 / 100)))]"
  by (simp add: eval_pass history_store_def numeral_2_eq_2)

text \<open>
  C1.  The pass does not load the history from inception: its query keeps the equity
  rows from the start date on, and the first of them is the baseline of the cumulative
  return.  On three days of equity 100, 110 and 121 the pass from day 2 reads the rows
  of days 2 and 3 only and gives day 3 the cumulative return \<open>121 / 110 - 1 = 1 / 10\<close>,
  where the pass from day 1 gives the same day \<open>121 / 100 - 1 = 21 / 100\<close>, the return
  since inception.
\<close>

theorem baseline_is_window_start:
  "fst (select_equity (combine_min 2) (SessionLocal history_store None [])) =
     Inr [(2 * 86400 + 3600, 110), (3 * 86400 + 3600, 121)]
   \<and> fst (recompute_analytics_from_date L 2 (SessionLocal history_store None [])) = Inr ()
   \<and> (objects (snd (recompute_analytics_from_date L 2 (SessionLocal history_store None []))) ! 2)
        ''date'' = Some (PyDate 3)
   \<and> (objects (snd (recompute_analytics_from_date L 2 (SessionLocal history_store None []))) ! 2)
        ''cumulative_return'' = Some (Num (1 / 10))
   \<and> fst (recompute_analytics_from_date L 1 (SessionLocal history_store None [])) = Inr ()
   \<and> (objects (snd (recompute_analytics_from_date L 1 (SessionLocal history_store None []))) ! 2)
        ''date'' = Some (PyDate 3)
   \<and> (objects (snd (recompute_analytics_from_date L 1 (SessionLocal history_store None []))) ! 2)
        ''cumulative_return'' = Some (Num (21 / 100))"
proof -
  have q: "fst (select_equity (combine_min 2) (SessionLocal history_store None [])) =
     Inr [(2 * 86400 + 3600, 110), (3 * 86400 + 3600, 121)]"
    by (simp add: select_equity_def roundtrip_def SessionLocal_def combine_min_def
        history_store_def)
  have r2: "fst (recompute_analytics_from_date L 2 (SessionLocal history_store None [])) = Inr ()"
    by (simp add: eval_pass history_store_def)
  have r1: "fst (recompute_analytics_from_date L 1 (SessionLocal history_store None [])) = Inr ()"
    by (simp add: eval_pass history_store_def)
  have d2: "(objects (snd (recompute_analytics_from_date L 2 (SessionLocal history_store None []))) ! 2)
        ''date'' = Some (PyDate 3)"
    unfolding history_from_2 by (simp add: setattrs_date stale_row_date)
  have c2: "(objects (snd (recompute_analytics_from_date L 2 (SessionLocal history_store None []))) ! 2)
        ''cumulative_return'' = Some (Num (1 / 10))"
    unfolding history_from_2 by (simp add: setattrs_cum)
  have d1: "(objects (snd (recompute_analytics_from_date L 1 (SessionLocal history_store None []))) ! 2)
        ''date'' = Some (PyDate 3)"
    unfolding history_from_1 by (simp add: setattrs_date stale_row_date)
  have c1: "(objects (snd (recompute_analytics_from_date L 1 (SessionLocal history_store None []))) ! 2)
        ''cumulative_return'' = Some (Num (21 / 100))"
    unfolding history_from_1 by (simp add: setattrs_cum)
  from q r2 d2 c2 r1 d1 c1 show ?thesis by (intro conjI)
qed

subsection \<open>What an update leaves in the record\<close>

lemma full_from_1:
  "analytics_daily (stored (snd (recompute_analytics_from_date L 1
       (SessionLocal full_store None [])))) =
     [persist (setattrs (stale_row 1)
        (analytics_values (make_ctx L 1 [(1, 100), (2, 110)] None) 0 (Num 0))),
      persist (setattrs (stale_row 2)
        (analytics_values (make_ctx L 1 [(1, 100), (2, 110)] None) 1 (Num (1 / 10))))]"
  by (simp add: eval_pass full_store_def fresh_store_def)

lemma persist_stale:
  "k \<in> {''return_pct'', ''cum_return'', ''drawdown''} \<Longrightarrow>
   persist (setattrs ob (analytics_values c idx cum)) k = persist ob k"
  by (auto simp: setattrs_def analytics_values_def values_before_def values_after_def
      persist_def AnalyticsDaily_columns_def restrict_map_def)

text \<open>
  C2.  A pass that updates the record of a date does not overwrite every field of it.
  On two days of equity with a record for each day, the pass from day 1 returns and
  commits, and leaves one record for each day; it has overwritten the 20-day volatility
  of day 1, yet the return, the cumulative return and the drawdown of the record are the
  values the earlier computation left, because the update assigns them under names that
  are no columns.
\<close>

theorem update_keeps_stale_fields:
  "fst (recompute_analytics_from_date spec_lib 1 (SessionLocal full_store None [])) = Inr ()
   \<and> commits (snd (recompute_analytics_from_date spec_lib 1 (SessionLocal full_store None []))) = 1
   \<and> map (\<lambda>ob. ob ''date'')
        (analytics_daily (stored (snd (recompute_analytics_from_date spec_lib 1
           (SessionLocal full_store None []))))) = [Some (PyDate 1), Some (PyDate 2)]
   \<and> (analytics_daily full_store ! 0) ''volatility_20d'' = Some (Num 9)
   \<and> (analytics_daily (stored (snd (recompute_analytics_from_date spec_lib 1
           (SessionLocal full_store None []))) ) ! 0) ''volatility_20d'' = Some PyNone
   \<and> (analytics_daily (stored (snd (recompute_analytics_from_date spec_lib 1
           (SessionLocal full_store None []))) ) ! 0) ''return_pct'' = Some (Num (1 / 2))
   \<and> (analytics_daily (stored (snd (recompute_analytics_from_date spec_lib 1
           (SessionLocal full_store None []))) ) ! 0) ''cum_return'' = Some (Num (1 / 2))
   \<and> (analytics_daily (stored (snd (recompute_analytics_from_date spec_lib 1
           (SessionLocal full_store None []))) ) ! 0) ''drawdown'' = Some (Num (- 1 / 2))
   \<and> (analytics_daily (stored (snd (recompute_analytics_from_date spec_lib 1
           (SessionLocal full_store None []))) ) ! 0) ''cumulative_return'' = None"
proof -
  let ?c = "make_ctx spec_lib 1 [(1, 100), (2, 110)] None"
  let ?P = "recompute_analytics_from_date spec_lib 1 (SessionLocal full_store None [])"
  have r: "fst ?P = Inr ()" by (simp add: eval_pass full_store_def fresh_store_def)
  have k: "commits (snd ?P) = 1" by (simp add: eval_pass full_store_def fresh_store_def)
  have dates: "map (\<lambda>ob. ob ''date'') (analytics_daily (stored (snd ?P))) =
      [Some (PyDate 1), Some (PyDate 2)]"
    unfolding full_from_1 by (simp add: persist_date setattrs_date stale_row_date)
  have old: "(analytics_daily full_store ! 0) ''volatility_20d'' = Some (Num 9)"
    by (simp add: full_store_def stale_row_def)
  have vol: "float_or_none (iloc_or_none (rolling_vol ?c) 0) = PyNone"
    by (simp add: make_ctx_def Let_def spec_lib_def on_dates_def to_series_def dailyReturns_def
        rollingVolatility_def rolling_def last_n_def iloc_or_none_def float_or_none_def)
  have new: "(analytics_daily (stored (snd ?P)) ! 0) ''volatility_20d'' = Some PyNone"
    unfolding full_from_1 by (simp add: persist_def AnalyticsDaily_columns_def setattrs_vol vol)
  have s1: "(analytics_daily (stored (snd ?P)) ! 0) ''return_pct'' = Some (Num (1 / 2))"
    unfolding full_from_1
    by (simp add: persist_stale) (simp add: persist_def AnalyticsDaily_columns_def stale_row_def)
  have s2: "(analytics_daily (stored (snd ?P)) ! 0) ''cum_return'' = Some (Num (1 / 2))"
    unfolding full_from_1
    by (simp add: persist_stale) (simp add: persist_def AnalyticsDaily_columns_def stale_row_def)
  have s3: "(analytics_daily (stored (snd ?P)) ! 0) ''drawdown'' = Some (Num (- 1 / 2))"
    unfolding full_from_1
    by (simp add: persist_stale) (simp add: persist_def AnalyticsDaily_columns_def stale_row_def)
  have s4: "(analytics_daily (stored (snd ?P)) ! 0) ''cumulative_return'' = None"
    unfolding full_from_1 by (simp add: persist_def AnalyticsDaily_columns_def)
  from r k dates old new s1 s2 s3 s4 show ?thesis by (intro conjI)
qed

subsection \<open>Values that are not numbers\<close>

text \<open>
  C5.  The pass raises on a numeric degeneracy, and not every field is guarded.  The
  cumulative return divides by the first daily equity with no guard: on two days of
  equity 0 the division of decimals raises \<open>InvalidOperation\<close>, the pass ends with that
  error and nothing is stored; a first equity of 0 under a later equity that is not 0
  raises \<open>DivisionByZero\<close>.  And the maximum drawdown is assigned as the library returned
  it: a not-a-number stays a not-a-number, where the daily return and the four rolling
  values are turned into \<open>None\<close>.
\<close>

theorem degenerate_values_unguarded:
  "fst (recompute_analytics_from_date L 1 (SessionLocal zero_store None [])) =
     Inl DecimalInvalidOperation
   \<and> stored (snd (recompute_analytics_from_date L 1 (SessionLocal zero_store None []))) =
       zero_store
   \<and> cumulative_return (example_ctx\<lparr>daily_equity := [(1, 0), (2, 0)]\<rparr>) 1 =
       Inl DecimalInvalidOperation
   \<and> cumulative_return (example_ctx\<lparr>daily_equity := [(1, 0), (2, 110)]\<rparr>) 1 =
       Inl DecimalDivisionByZero
   \<and> map_of (analytics_values (example_ctx\<lparr>max_dd := NaN\<rparr>) 0 (Num 0)) ''max_drawdown'' =
       Some NaN
   \<and> map_of (analytics_values example_ctx 0 (Num 0)) ''volatility_20d'' = Some PyNone
   \<and> rolling_vol example_ctx ! 0 = (1, NaN)"
proof -
  have a: "fst (recompute_analytics_from_date L 1 (SessionLocal zero_store None [])) =
     Inl DecimalInvalidOperation"
    by (simp add: eval_pass zero_store_def)
  have b: "stored (snd (recompute_analytics_from_date L 1 (SessionLocal zero_store None []))) =
       zero_store"
    by (simp add: eval_pass zero_store_def)
  have c: "cumulative_return (example_ctx\<lparr>daily_equity := [(1, 0), (2, 0)]\<rparr>) 1 =
       Inl DecimalInvalidOperation"
    by (simp add: cumulative_return_def decimal_div_def)
  have d: "cumulative_return (example_ctx\<lparr>daily_equity := [(1, 0), (2, 110)]\<rparr>) 1 =
       Inl DecimalDivisionByZero"
    by (simp add: cumulative_return_def decimal_div_def)
  have e: "map_of (analytics_values (example_ctx\<lparr>max_dd := NaN\<rparr>) 0 (Num 0)) ''max_drawdown'' =
       Some NaN"
    by (simp add: analytics_values_def values_before_def values_after_def)
  have f: "map_of (analytics_values example_ctx 0 (Num 0)) ''volatility_20d'' = Some PyNone"
    by (simp add: analytics_values_def values_before_def values_after_def example_ctx_def
        float_or_none_def iloc_or_none_def)
  have g: "rolling_vol example_ctx ! 0 = (1, NaN)" by (simp add: example_ctx_def)
  from a b c d e f g show ?thesis by (intro conjI)
qed

end
